theory Spec2Isabelle
  imports Main "HOL-Library.Word"
begin

section \<open>The data the writer receives\<close>

text \<open>
  \<^verbatim>\<open>NDFileNetCDF.cpp\<close> writes array frames (\<^verbatim>\<open>NDArray\<close>) to a netCDF file. The
  declarations of \<^verbatim>\<open>NDArray\<close>, \<^verbatim>\<open>NDAttribute\<close>, of the open-mode bits and of the class
  \<^verbatim>\<open>NDFileNetCDF\<close> are in headers; the records below hold the fields the three methods
  read and write, under the names the methods use.
\<close>

datatype asynStatus = asynSuccess | asynError

datatype NDDataType_t =
  NDInt8 | NDUInt8 | NDInt16 | NDUInt16 | NDInt32 | NDUInt32 | NDFloat32 | NDFloat64

datatype NDAttrDataType_t =
  NDAttrInt8 | NDAttrUInt8 | NDAttrInt16 | NDAttrUInt16 | NDAttrInt32 | NDAttrUInt32
  | NDAttrFloat32 | NDAttrFloat64 | NDAttrString | NDAttrUndefined

text \<open>The open mode is a bit mask; \<^verbatim>\<open>openMode & bit\<close> is membership of the bit.\<close>

datatype NDFileMode = NDFileModeRead | NDFileModeWrite | NDFileModeAppend | NDFileModeMultiple

type_synonym NDFileOpenMode_t = "NDFileMode set"

record NDDimension =
  size_dim :: int
  offset :: int
  binning :: int
  reverse :: int

text \<open>
  The union \<^verbatim>\<open>NDAttrValue\<close> is eight bytes wide; the writer copies it and never looks
  inside, so it is kept as its bytes. A 64-bit float is kept as its bit pattern likewise.
\<close>

type_synonym NDAttrValue = "64 word"
type_synonym epicsFloat64 = "64 word"

record NDAttribute =
  pName :: string
  pDescription :: string
  attrDataType :: NDAttrDataType_t
  attrValue :: NDAttrValue
  pString :: string

text \<open>
  \<open>dims\<close> holds the entries \<^verbatim>\<open>dims[0] .. dims[ndims-1]\<close> of the frame, so \<^verbatim>\<open>ndims\<close> is its
  length. \<open>pAttributeList\<close> is the attribute list in the order in which
  \<^verbatim>\<open>nextAttribute\<close> walks it.
\<close>

record NDArray =
  uniqueId :: int
  timeStamp :: epicsFloat64
  dims :: "NDDimension list"
  dataType :: NDDataType_t
  pData :: "8 word list"
  pAttributeList :: "NDAttribute list"

definition ndims :: "NDArray \<Rightarrow> nat" where
  "ndims pArray = length (dims pArray)"

definition numAttributes :: "NDArray \<Rightarrow> nat" where
  "numAttributes pArray = length (pAttributeList pArray)"

definition MAX_ATTRIBUTE_STRING_SIZE :: nat where
  "MAX_ATTRIBUTE_STRING_SIZE = 256"

text \<open>
  Modelled from the spec: the accessors of \<^verbatim>\<open>NDAttribute\<close> (\<^verbatim>\<open>getName\<close>, \<^verbatim>\<open>getDescription\<close>,
  the string form of \<^verbatim>\<open>getValue\<close>), whose class is not among the sources. Each copies a
  text of the attribute into the caller's buffer of \<open>n\<close> bytes. The spec calls the text a
  bounded-length payload: a text shorter than the buffer arrives whole with its
  terminator; the model cuts a longer one to the \<open>n - 1\<close> characters that leave room for
  the terminator.
\<close>

definition copy_text :: "nat \<Rightarrow> string \<Rightarrow> string" where
  "copy_text n str = take (n - 1) str"

definition getName :: "NDAttribute \<Rightarrow> nat \<Rightarrow> string" where
  "getName pAttribute n = copy_text n (pName pAttribute)"

definition getDescription :: "NDAttribute \<Rightarrow> nat \<Rightarrow> string" where
  "getDescription pAttribute n = copy_text n (pDescription pAttribute)"

definition getValueString :: "NDAttribute \<Rightarrow> nat \<Rightarrow> string" where
  "getValueString pAttribute n = copy_text n (pString pAttribute)"

definition getValueInfo :: "NDAttribute \<Rightarrow> NDAttrDataType_t" where
  "getValueInfo pAttribute = attrDataType pAttribute"

definition getValue :: "NDAttribute \<Rightarrow> NDAttrValue" where
  "getValue pAttribute = attrValue pAttribute"

text \<open>\<^verbatim>\<open>epicsSnprintf(buf, n, "%s<suffix>", name)\<close>: at most \<open>n - 1\<close> characters are kept.\<close>

definition epicsSnprintf :: "nat \<Rightarrow> string \<Rightarrow> string" where
  "epicsSnprintf n str = take (n - 1) str"

text \<open>\<^verbatim>\<open>sprintf(dimName, "dim%d", i)\<close> prints \<open>i\<close> in decimal.\<close>

definition digit_char :: "nat \<Rightarrow> char" where
  "digit_char d = ''0123456789'' ! d"

fun decimal :: "nat \<Rightarrow> string" where
  "decimal n = (if n < 10 then [digit_char n] else decimal (n div 10) @ [digit_char (n mod 10)])"

declare decimal.simps [simp del]

section \<open>The netCDF library\<close>

text \<open>
  The library is outside the repository. The model records every call the writer makes,
  with its arguments as passed, and takes the library's answers from the environment:
  the \<open>k\<close>-th call of a run returns the status and the identifier \<open>E k\<close>. A status other
  than 0 is a failure. Quantifying over \<open>E\<close> covers every behaviour of the library.
\<close>

datatype nc_type = NC_NAT | NC_BYTE | NC_CHAR | NC_SHORT | NC_INT | NC_FLOAT | NC_DOUBLE

definition NC_CLOBBER :: int where "NC_CLOBBER = 0"
definition NC_GLOBAL :: int where "NC_GLOBAL = - 1"
definition NC_UNLIMITED :: int where "NC_UNLIMITED = 0"

datatype att_values =
  att_ints "int list"
  | att_NDDataType NDDataType_t
  | att_NDAttrDataType NDAttrDataType_t
  | att_double epicsFloat64

datatype vara_fn = vara_schar | vara_short | vara_int | vara_float | vara_double | vara_text

datatype vara_data =
  data_int int
  | data_double epicsFloat64
  | data_buffer "8 word list"
  | data_attr NDAttrValue
  | data_text string

text \<open>
  The arguments of each call, in the order of the C prototype, without the result
  pointer. \<open>Nc_put_vara\<close> carries the \<^verbatim>\<open>start\<close> and \<^verbatim>\<open>count\<close> arrays as the writer filled them;
  the library reads as many entries as the variable has axes.
\<close>

datatype nc_request =
  Nc_create string int
  | Nc_put_att_int int int string nc_type nat att_values
  | Nc_put_att_double int int string nc_type nat att_values
  | Nc_put_att_text int int string nat string
  | Nc_def_dim int string int
  | Nc_def_var int string nc_type nat "int list"
  | Nc_enddef int
  | Nc_put_vara vara_fn int int "int list" "int list" vara_data
  | Nc_close int

record nc_event =
  request :: nc_request
  status :: int
  handle :: int

type_synonym nc_env = "nat \<Rightarrow> int \<times> int"

section \<open>The session\<close>

text \<open>
  The members of \<^verbatim>\<open>NDFileNetCDF\<close> the methods use. \<open>pAttributeId\<close> is \<open>None\<close> when it
  points to no block (the null pointer the constructor stores, or a block that has been
  freed), and the allocated block otherwise. \<open>netcdf\<close> is the
  record of the library calls made so far. \<open>nextRecord\<close> is an \<^verbatim>\<open>int\<close> of 32 bits: line 350
  increments it with \<^verbatim>\<open>++\<close>, which is the addition of the word type, so that the cursor
  after \<open>2147483647\<close> is \<open>-2147483648\<close>, what the compiled code stores there.
\<close>

record NDFileNetCDF =
  nextRecord :: "32 word"
  ncId :: int
  uniqueIdId :: int
  timeStampId :: int
  arrayDataId :: int
  pAttributeId :: "int list option"
  netcdf :: "nc_event list"

text \<open>
  A method either goes on to its next statement with a value, returns a status, or
  reads outside an allocated block (\<open>Fault\<close>: the C++ has no defined behaviour there).
\<close>

datatype 'a flow = Next 'a | Return asynStatus | Fault

type_synonym 'a step = "NDFileNetCDF \<Rightarrow> 'a flow \<times> NDFileNetCDF"

definition andThen :: "'a step \<Rightarrow> ('a \<Rightarrow> 'b step) \<Rightarrow> 'b step" where
  "andThen m f s =
     (case m s of
        (Next x, s1) \<Rightarrow> f x s1
      | (Return r, s1) \<Rightarrow> (Return r, s1)
      | (Fault, s1) \<Rightarrow> (Fault, s1))"

text \<open>One call of the library: the answer comes from the environment, the call is recorded.\<close>

definition nc_call :: "nc_env \<Rightarrow> nc_request \<Rightarrow> NDFileNetCDF \<Rightarrow> (int \<times> int) \<times> NDFileNetCDF" where
  "nc_call E rq s =
     (let k = length (netcdf s) in
      (E k, s\<lparr>netcdf := netcdf s @ [\<lparr>request = rq, status = fst (E k), handle = snd (E k)\<rparr>]\<rparr>))"

text \<open>
  The macro \<^verbatim>\<open>ERR(e)\<close> prints a message and returns \<^verbatim>\<open>asynError\<close>.
  \<open>orERR\<close> is the pattern \<^verbatim>\<open>if ((retval = call)) ERR(retval);\<close>; its value is the identifier
  the call handed back.
\<close>

definition ERR :: "int \<Rightarrow> 'a step" where
  "ERR e s = (Return asynError, s)"

definition orERR :: "(NDFileNetCDF \<Rightarrow> (int \<times> int) \<times> NDFileNetCDF) \<Rightarrow> int step" where
  "orERR call s =
     (case call s of
        ((retval, ident), s1) \<Rightarrow> if retval \<noteq> 0 then ERR retval s1 else (Next ident, s1))"

definition assign :: "(NDFileNetCDF \<Rightarrow> NDFileNetCDF) \<Rightarrow> unit step" where
  "assign f s = (Next (), f s)"

text \<open>
  A call with a result pointer (\<^verbatim>\<open>&this->ncId\<close>, \<^verbatim>\<open>&this->pAttributeId[attrCount++]\<close>):
  the library stores the identifier there when it succeeds.
\<close>

definition storing ::
  "(int \<Rightarrow> NDFileNetCDF \<Rightarrow> NDFileNetCDF) \<Rightarrow> (NDFileNetCDF \<Rightarrow> (int \<times> int) \<times> NDFileNetCDF)
     \<Rightarrow> NDFileNetCDF \<Rightarrow> (int \<times> int) \<times> NDFileNetCDF" where
  "storing put call s =
     (case call s of
        ((retval, ident), s1) \<Rightarrow> ((retval, ident), if retval = 0 then put ident s1 else s1))"

section \<open>openFile\<close>

text \<open>Lines 143-163: the storage type of the frame's elements.\<close>

fun array_ncType :: "NDDataType_t \<Rightarrow> nc_type" where
  "array_ncType NDInt8 = NC_BYTE"
| "array_ncType NDUInt8 = NC_BYTE"
| "array_ncType NDInt16 = NC_SHORT"
| "array_ncType NDUInt16 = NC_SHORT"
| "array_ncType NDInt32 = NC_INT"
| "array_ncType NDUInt32 = NC_INT"
| "array_ncType NDFloat32 = NC_FLOAT"
| "array_ncType NDFloat64 = NC_DOUBLE"

text \<open>
  Lines 198-223: the storage type of an attribute. \<open>None\<close> is the last case of the switch,
  which returns \<^verbatim>\<open>asynError\<close> from \<^verbatim>\<open>openFile\<close>.
\<close>

fun attr_ncType :: "NDAttrDataType_t \<Rightarrow> nc_type option" where
  "attr_ncType NDAttrInt8 = Some NC_BYTE"
| "attr_ncType NDAttrUInt8 = Some NC_BYTE"
| "attr_ncType NDAttrInt16 = Some NC_SHORT"
| "attr_ncType NDAttrUInt16 = Some NC_SHORT"
| "attr_ncType NDAttrInt32 = Some NC_INT"
| "attr_ncType NDAttrUInt32 = Some NC_INT"
| "attr_ncType NDAttrFloat32 = Some NC_FLOAT"
| "attr_ncType NDAttrFloat64 = Some NC_DOUBLE"
| "attr_ncType NDAttrString = Some NC_CHAR"
| "attr_ncType NDAttrUndefined = None"

text \<open>
  The local arrays of \<^verbatim>\<open>openFile\<close>. The loop of lines 113-122 fills \<^verbatim>\<open>dimIds[i+1]\<close>, \<^verbatim>\<open>size[i]\<close>,
  \<^verbatim>\<open>offset[i]\<close>, \<^verbatim>\<open>binning[i]\<close> and \<^verbatim>\<open>reverse[i]\<close> for \<open>i = 0, 1, ...\<close> in turn, so each
  array is the list of the entries written so far and a store appends to it. The arrays
  of the source hold \<^verbatim>\<open>ND_ARRAY_MAX_DIMS\<close> entries (\<^verbatim>\<open>dimIds\<close> one more), the largest number of
  dimensions of a frame; the lists have no bound.
\<close>

record open_locals =
  dimIds :: "int list"
  size_l :: "int list"
  offset_l :: "int list"
  binning_l :: "int list"
  reverse_l :: "int list"

text \<open>Lines 113-122, from the value \<open>i\<close> of the loop counter on.\<close>

function dimLoop :: "nc_env \<Rightarrow> NDArray \<Rightarrow> nat \<Rightarrow> open_locals \<Rightarrow> open_locals step" where
  "dimLoop E pArray i v s =
     (if i < ndims pArray then
        (let j = ndims pArray - i - 1;
             dimName = ''dim'' @ decimal i
         in case nc_call E (Nc_def_dim (ncId s) dimName (size_dim (dims pArray ! j))) s of
              ((retval, ident), s1) \<Rightarrow>
                if retval \<noteq> 0 then ERR retval s1
                else dimLoop E pArray (i + 1)
                       (v\<lparr>dimIds := dimIds v @ [ident],
                          size_l := size_l v @ [size_dim (dims pArray ! i)],
                          offset_l := offset_l v @ [offset (dims pArray ! i)],
                          binning_l := binning_l v @ [binning (dims pArray ! i)],
                          reverse_l := reverse_l v @ [reverse (dims pArray ! i)]\<rparr>) s1)
      else (Next v, s))"
  by pat_completeness auto
termination
  by (relation "measure (\<lambda>(E, pArray, i, v, s). ndims pArray - i)") auto

declare dimLoop.simps [simp del]

text \<open>
  Lines 186-234, one attribute after the other. \<open>d0\<close> is \<^verbatim>\<open>dimIds[0]\<close> and \<open>stringDimIds\<close>
  the two entries of the array of that name.
\<close>

fun attrLoop ::
  "nc_env \<Rightarrow> int \<Rightarrow> int list \<Rightarrow> NDAttribute list \<Rightarrow> nat \<Rightarrow> unit step" where
  "attrLoop E d0 stringDimIds [] attrCount s = (Next (), s)"
| "attrLoop E d0 stringDimIds (pAttribute # rest) attrCount s =
     (let attrDataType = getValueInfo pAttribute;
          name = getName pAttribute MAX_ATTRIBUTE_STRING_SIZE;
          tempString = epicsSnprintf MAX_ATTRIBUTE_STRING_SIZE (name @ ''_DataType'')
      in
      andThen (orERR (\<lambda>s. nc_call E (Nc_put_att_int (ncId s) NC_GLOBAL tempString
                                         NC_INT 1 (att_NDAttrDataType attrDataType)) s)) (\<lambda>_.
      let description = getDescription pAttribute MAX_ATTRIBUTE_STRING_SIZE;
          tempString = epicsSnprintf MAX_ATTRIBUTE_STRING_SIZE (name @ ''_Description'')
      in
      andThen (orERR (\<lambda>s. nc_call E (Nc_put_att_text (ncId s) NC_GLOBAL tempString
                                         (length description) description) s)) (\<lambda>_.
      andThen (\<lambda>s. case attr_ncType attrDataType of
                       None \<Rightarrow> (Return asynError, s)
                     | Some ncType \<Rightarrow> (Next ncType, s)) (\<lambda>ncType.
      andThen
        (if attrDataType = NDAttrString then
           orERR (storing (\<lambda>ident s. s\<lparr>pAttributeId :=
                                map_option (\<lambda>ids. ids[attrCount := ident]) (pAttributeId s)\<rparr>)
                    (\<lambda>s. nc_call E (Nc_def_var (ncId s) name ncType 2 stringDimIds) s))
         else
           orERR (storing (\<lambda>ident s. s\<lparr>pAttributeId :=
                                map_option (\<lambda>ids. ids[attrCount := ident]) (pAttributeId s)\<rparr>)
                    (\<lambda>s. nc_call E (Nc_def_var (ncId s) name ncType 1 [d0]) s))) (\<lambda>_.
      attrLoop E d0 stringDimIds rest (attrCount + 1))))) s)"

declare attrLoop.simps [simp del]

text \<open>
  \<^verbatim>\<open>NDFileNetCDF::openFile\<close>, lines 42-241. \<open>NDNetCDFFileVersion\<close> is the constant of that
  name, defined in the header. Line 181 frees the block of \<open>pAttributeId\<close> and line 184
  allocates a zeroed block of \<^verbatim>\<open>numAttributes\<close> entries; the allocation is taken to succeed.
\<close>

definition openFile ::
  "nc_env \<Rightarrow> epicsFloat64 \<Rightarrow> string \<Rightarrow> NDFileOpenMode_t \<Rightarrow> NDArray \<Rightarrow> unit step" where
  "openFile E NDNetCDFFileVersion fileName openMode pArray s =
     (if NDFileModeRead \<in> openMode then (Return asynError, s)
      else if NDFileModeAppend \<in> openMode then (Return asynError, s)
      else
       (andThen (assign (\<lambda>s. s\<lparr>nextRecord := 0\<rparr>)) (\<lambda>_.
        andThen (orERR (storing (\<lambda>ident s. s\<lparr>ncId := ident\<rparr>)
                          (nc_call E (Nc_create fileName NC_CLOBBER)))) (\<lambda>_.
        andThen (orERR (\<lambda>s. nc_call E (Nc_put_att_int (ncId s) NC_GLOBAL ''dataType''
                                  NC_INT 1 (att_NDDataType (dataType pArray))) s)) (\<lambda>_.
        let fileVersion = NDNetCDFFileVersion in
        andThen (orERR (\<lambda>s. nc_call E (Nc_put_att_double (ncId s) NC_GLOBAL ''NDNetCDFFileVersion''
                                  NC_DOUBLE 1 (att_double fileVersion)) s)) (\<lambda>_.
        andThen (orERR (\<lambda>s. nc_call E (Nc_put_att_int (ncId s) NC_GLOBAL ''numArrayDims''
                                  NC_INT 1 (att_ints [int (ndims pArray)])) s)) (\<lambda>_.
        let dim0 = 1;
            dim0 = (if NDFileModeMultiple \<in> openMode then NC_UNLIMITED else dim0) in
        andThen (orERR (\<lambda>s. nc_call E (Nc_def_dim (ncId s) ''numArrays'' dim0) s)) (\<lambda>dimId0.
        andThen (dimLoop E pArray 0
                   \<lparr>dimIds = [dimId0], size_l = [], offset_l = [], binning_l = [],
                    reverse_l = []\<rparr>) (\<lambda>v.
        andThen (orERR (\<lambda>s. nc_call E (Nc_def_dim (ncId s) ''attrStringSize''
                                  (int MAX_ATTRIBUTE_STRING_SIZE)) s)) (\<lambda>stringDimId1.
        let stringDimIds = [dimIds v ! 0, stringDimId1] in
        andThen (orERR (\<lambda>s. nc_call E (Nc_put_att_int (ncId s) NC_GLOBAL ''dimSize''
                                  NC_INT (ndims pArray) (att_ints (size_l v))) s)) (\<lambda>_.
        andThen (orERR (\<lambda>s. nc_call E (Nc_put_att_int (ncId s) NC_GLOBAL ''dimOffset''
                                  NC_INT (ndims pArray) (att_ints (offset_l v))) s)) (\<lambda>_.
        andThen (orERR (\<lambda>s. nc_call E (Nc_put_att_int (ncId s) NC_GLOBAL ''dimBinning''
                                  NC_INT (ndims pArray) (att_ints (binning_l v))) s)) (\<lambda>_.
        andThen (orERR (\<lambda>s. nc_call E (Nc_put_att_int (ncId s) NC_GLOBAL ''dimReverse''
                                  NC_INT (ndims pArray) (att_ints (reverse_l v))) s)) (\<lambda>_.
        let ncType = array_ncType (dataType pArray) in
        andThen (orERR (storing (\<lambda>ident s. s\<lparr>uniqueIdId := ident\<rparr>)
                          (\<lambda>s. nc_call E (Nc_def_var (ncId s) ''uniqueId'' NC_INT 1
                                           [dimIds v ! 0]) s))) (\<lambda>_.
        andThen (orERR (storing (\<lambda>ident s. s\<lparr>timeStampId := ident\<rparr>)
                          (\<lambda>s. nc_call E (Nc_def_var (ncId s) ''timeStamp'' NC_DOUBLE 1
                                           [dimIds v ! 0]) s))) (\<lambda>_.
        andThen (orERR (storing (\<lambda>ident s. s\<lparr>arrayDataId := ident\<rparr>)
                          (\<lambda>s. nc_call E (Nc_def_var (ncId s) ''array_data'' ncType
                                           (ndims pArray + 1) (dimIds v)) s))) (\<lambda>_.
        andThen (assign (\<lambda>s. s\<lparr>pAttributeId := None\<rparr>)) (\<lambda>_.
        let numAttributes = numAttributes pArray;
            attrCount = 0 in
        andThen (assign (\<lambda>s. s\<lparr>pAttributeId := Some (replicate numAttributes 0)\<rparr>)) (\<lambda>_.
        andThen (attrLoop E (dimIds v ! 0) stringDimIds (pAttributeList pArray) attrCount) (\<lambda>_.
        andThen (orERR (\<lambda>s. nc_call E (Nc_enddef (ncId s)) s)) (\<lambda>_.
        (\<lambda>s. (Return asynSuccess, s))))))))))))))))))))) s))"

section \<open>writeFile\<close>

text \<open>
  Line 264, \<^verbatim>\<open>start[0] = this->nextRecord\<close>: the \<^verbatim>\<open>int\<close> is converted to the \<^verbatim>\<open>size_t\<close> of the
  array, of 64 bits here. The value of a cursor that is not negative is kept, and
  \<open>2 ^ 64\<close> is added to a negative one.
\<close>

definition to_size_t :: "32 word \<Rightarrow> int" where
  "to_size_t i = sint i mod 2 ^ 64"

text \<open>
  Lines 263-269: \<^verbatim>\<open>start\<close> and \<^verbatim>\<open>count\<close>, whose entry 0 is set before the loop and whose
  entry \<open>i + 1\<close> is set by the pass \<open>i\<close> of the loop.
\<close>

function slabLoop :: "NDArray \<Rightarrow> nat \<Rightarrow> int list \<times> int list \<Rightarrow> int list \<times> int list" where
  "slabLoop pArray i (start, count) =
     (if i < ndims pArray then
        (let j = ndims pArray - i - 1
         in slabLoop pArray (i + 1) (start @ [0], count @ [size_dim (dims pArray ! j)]))
      else (start, count))"
  by pat_completeness auto
termination
  by (relation "measure (\<lambda>(pArray, i, sc). ndims pArray - i)") auto

declare slabLoop.simps [simp del]

text \<open>
  Line 307, \<^verbatim>\<open>attrId = this->pAttributeId[attrCount++]\<close>: a read of the block allocated by
  \<^verbatim>\<open>openFile\<close>, outside of it when the frame has more attributes than the block has
  entries.
\<close>

definition readAttributeId :: "nat \<Rightarrow> int step" where
  "readAttributeId attrCount s =
     (case pAttributeId s of
        None \<Rightarrow> (Fault, s)
      | Some ids \<Rightarrow> if attrCount < length ids then (Next (ids ! attrCount), s) else (Fault, s))"

text \<open>
  Lines 308-347: the switch on the attribute's type. Each case but the last makes one
  library call and hands its status to \<^verbatim>\<open>ERR\<close>; \<open>attributeCall\<close> is the call the case makes,
  and \<open>None\<close> the last case, which returns \<^verbatim>\<open>asynError\<close> without a call.
\<close>

definition attributeCall ::
  "int \<Rightarrow> int \<Rightarrow> int list \<Rightarrow> int list \<Rightarrow> NDAttribute \<Rightarrow> nc_request option" where
  "attributeCall ncid attrId start count pAttribute =
     (let attrDataType = getValueInfo pAttribute in
      case attrDataType of
          NDAttrInt8 \<Rightarrow>
            Some (Nc_put_vara vara_schar ncid attrId start count (data_attr (getValue pAttribute)))
        | NDAttrUInt8 \<Rightarrow>
            Some (Nc_put_vara vara_schar ncid attrId start count (data_attr (getValue pAttribute)))
        | NDAttrInt16 \<Rightarrow>
            Some (Nc_put_vara vara_short ncid attrId start count (data_attr (getValue pAttribute)))
        | NDAttrUInt16 \<Rightarrow>
            Some (Nc_put_vara vara_short ncid attrId start count (data_attr (getValue pAttribute)))
        | NDAttrInt32 \<Rightarrow>
            Some (Nc_put_vara vara_int ncid attrId start count (data_attr (getValue pAttribute)))
        | NDAttrUInt32 \<Rightarrow>
            Some (Nc_put_vara vara_int ncid attrId start count (data_attr (getValue pAttribute)))
        | NDAttrFloat32 \<Rightarrow>
            Some (Nc_put_vara vara_float ncid attrId start count (data_attr (getValue pAttribute)))
        | NDAttrFloat64 \<Rightarrow>
            Some (Nc_put_vara vara_double ncid attrId start count (data_attr (getValue pAttribute)))
        | NDAttrString \<Rightarrow>
            (let attrString = getValueString pAttribute MAX_ATTRIBUTE_STRING_SIZE;
                 stringCount = [1, int (length attrString)]
             in Some (Nc_put_vara vara_text ncid attrId start stringCount (data_text attrString)))
        | NDAttrUndefined \<Rightarrow> None)"

definition writeAttribute ::
  "nc_env \<Rightarrow> int list \<Rightarrow> int list \<Rightarrow> NDAttribute \<Rightarrow> int \<Rightarrow> int step" where
  "writeAttribute E start count pAttribute attrId s =
     (case attributeCall (ncId s) attrId start count pAttribute of
        Some rq \<Rightarrow> orERR (nc_call E rq) s
      | None \<Rightarrow> (Return asynError, s))"

text \<open>Lines 305-349, one attribute after the other.\<close>

fun writeAttrLoop ::
  "nc_env \<Rightarrow> int list \<Rightarrow> int list \<Rightarrow> NDAttribute list \<Rightarrow> nat \<Rightarrow> unit step" where
  "writeAttrLoop E start count [] attrCount s = (Next (), s)"
| "writeAttrLoop E start count (pAttribute # rest) attrCount s =
     (andThen (readAttributeId attrCount) (\<lambda>attrId.
      andThen (writeAttribute E start count pAttribute attrId) (\<lambda>_.
      writeAttrLoop E start count rest (attrCount + 1))) s)"

declare writeAttrLoop.simps [simp del]

text \<open>
  Lines 277-301: the switch on the element type; every case makes one call, writing the
  frame's buffer, and hands its status to \<^verbatim>\<open>ERR\<close>. \<open>dataCall\<close> is the call the case makes.
\<close>

definition dataCall :: "int \<Rightarrow> int \<Rightarrow> int list \<Rightarrow> int list \<Rightarrow> NDArray \<Rightarrow> nc_request" where
  "dataCall ncid varid start count pArray =
     (case dataType pArray of
        NDInt8 \<Rightarrow>
          Nc_put_vara vara_schar ncid varid start count (data_buffer (pData pArray))
      | NDUInt8 \<Rightarrow>
          Nc_put_vara vara_schar ncid varid start count (data_buffer (pData pArray))
      | NDInt16 \<Rightarrow>
          Nc_put_vara vara_short ncid varid start count (data_buffer (pData pArray))
      | NDUInt16 \<Rightarrow>
          Nc_put_vara vara_short ncid varid start count (data_buffer (pData pArray))
      | NDInt32 \<Rightarrow>
          Nc_put_vara vara_int ncid varid start count (data_buffer (pData pArray))
      | NDUInt32 \<Rightarrow>
          Nc_put_vara vara_int ncid varid start count (data_buffer (pData pArray))
      | NDFloat32 \<Rightarrow>
          Nc_put_vara vara_float ncid varid start count (data_buffer (pData pArray))
      | NDFloat64 \<Rightarrow>
          Nc_put_vara vara_double ncid varid start count (data_buffer (pData pArray)))"

definition writeData :: "nc_env \<Rightarrow> int list \<Rightarrow> int list \<Rightarrow> NDArray \<Rightarrow> int step" where
  "writeData E start count pArray s =
     orERR (nc_call E (dataCall (ncId s) (arrayDataId s) start count pArray)) s"

text \<open>\<^verbatim>\<open>NDFileNetCDF::writeFile\<close>, lines 248-352.\<close>

definition writeFile :: "nc_env \<Rightarrow> NDArray \<Rightarrow> unit step" where
  "writeFile E pArray s =
     (case slabLoop pArray 0 ([to_size_t (nextRecord s)], [1]) of
        (start, count) \<Rightarrow>
          (andThen (orERR (\<lambda>s. nc_call E (Nc_put_vara vara_int (ncId s) (uniqueIdId s) start count
                                      (data_int (uniqueId pArray))) s)) (\<lambda>_.
           andThen (orERR (\<lambda>s. nc_call E (Nc_put_vara vara_double (ncId s) (timeStampId s) start
                                      count (data_double (timeStamp pArray))) s)) (\<lambda>_.
           andThen (writeData E start count pArray) (\<lambda>_.
           andThen (writeAttrLoop E start count (pAttributeList pArray) 0) (\<lambda>_.
           andThen (assign (\<lambda>s. s\<lparr>nextRecord := nextRecord s + 1\<rparr>)) (\<lambda>_.
           (\<lambda>s. (Return asynSuccess, s))))))) s))"

section \<open>readFile and closeFile\<close>

text \<open>\<^verbatim>\<open>NDFileNetCDF::readFile\<close>, lines 356-361.\<close>

definition readFile :: "unit step" where
  "readFile s = (Return asynError, s)"

text \<open>\<^verbatim>\<open>NDFileNetCDF::closeFile\<close>, lines 365-373.\<close>

definition closeFile :: "nc_env \<Rightarrow> unit step" where
  "closeFile E s =
     (andThen (orERR (\<lambda>s. nc_call E (Nc_close (ncId s)) s)) (\<lambda>_.
      (\<lambda>s. (Return asynSuccess, s))) s)"

text \<open>
  The doc comment of \<^verbatim>\<open>writeFile\<close> allows any number of calls between \<^verbatim>\<open>openFile\<close> and
  \<^verbatim>\<open>closeFile\<close>. \<open>writeFiles\<close> is such a sequence of calls, one per frame of the list,
  whatever each call returns.
\<close>

fun writeFiles :: "nc_env \<Rightarrow> NDArray list \<Rightarrow> NDFileNetCDF \<Rightarrow> NDFileNetCDF" where
  "writeFiles E [] s = s"
| "writeFiles E (pArray # rest) s = writeFiles E rest (snd (writeFile E pArray s))"

text \<open>Every call of the sequence returns \<^verbatim>\<open>asynSuccess\<close>.\<close>

fun writes_succeed :: "nc_env \<Rightarrow> NDArray list \<Rightarrow> NDFileNetCDF \<Rightarrow> bool" where
  "writes_succeed E [] s = True"
| "writes_succeed E (pArray # rest) s =
     (fst (writeFile E pArray s) = Return asynSuccess \<and>
      writes_succeed E rest (snd (writeFile E pArray s)))"

section \<open>Reading the record of calls\<close>

text \<open>The calls a method added to the record: those of \<open>s'\<close> that \<open>s\<close> does not have yet.\<close>

definition new_events :: "NDFileNetCDF \<Rightarrow> NDFileNetCDF \<Rightarrow> nc_event list" where
  "new_events s s' = drop (length (netcdf s)) (netcdf s')"

text \<open>A call that succeeded and handed back \<open>h\<close>.\<close>

definition ok :: "nc_request \<Rightarrow> int \<Rightarrow> nc_event" where
  "ok rq h = \<lparr>request = rq, status = 0, handle = h\<rparr>"

text \<open>
  What the file holds after the calls \<open>es\<close>: its axes (name, length, identifier) in the
  order of their definition, its variables (name, storage type, axes, identifier), and
  its integer global attributes (name, values). Only a call that succeeded defines
  anything.
\<close>

fun dim_defs :: "nc_event list \<Rightarrow> (string \<times> int \<times> int) list" where
  "dim_defs [] = []"
| "dim_defs (e # es) =
     (case request e of
        Nc_def_dim ncid name len \<Rightarrow>
          if status e = 0 then (name, len, handle e) # dim_defs es else dim_defs es
      | _ \<Rightarrow> dim_defs es)"

fun var_defs :: "nc_event list \<Rightarrow> (string \<times> nc_type \<times> int list \<times> int) list" where
  "var_defs [] = []"
| "var_defs (e # es) =
     (case request e of
        Nc_def_var ncid name xtype n dimids \<Rightarrow>
          if status e = 0 then (name, xtype, dimids, handle e) # var_defs es else var_defs es
      | _ \<Rightarrow> var_defs es)"

fun global_ints :: "nc_event list \<Rightarrow> (string \<times> att_values) list" where
  "global_ints [] = []"
| "global_ints (e # es) =
     (case request e of
        Nc_put_att_int ncid varid name xtype n vals \<Rightarrow>
          if status e = 0 then (name, vals) # global_ints es else global_ints es
      | _ \<Rightarrow> global_ints es)"

text \<open>The entries of the block \<open>pAttributeId\<close> points to; none when it points to no block.\<close>

definition attributeIds :: "NDFileNetCDF \<Rightarrow> int list" where
  "attributeIds s = (case pAttributeId s of None \<Rightarrow> [] | Some ids \<Rightarrow> ids)"

text \<open>
  The three calls \<^verbatim>\<open>openFile\<close> makes for one attribute when all three succeed, with the
  identifiers \<open>hs\<close> they hand back.
\<close>

definition attr_events ::
  "int \<Rightarrow> int \<Rightarrow> int list \<Rightarrow> NDAttribute \<Rightarrow> int \<times> int \<times> int \<Rightarrow> nc_event list" where
  "attr_events ncid d0 sds a hs =
     (case hs of (h1, h2, ident) \<Rightarrow>
        [ok (Nc_put_att_int ncid NC_GLOBAL
               (epicsSnprintf MAX_ATTRIBUTE_STRING_SIZE
                  (getName a MAX_ATTRIBUTE_STRING_SIZE @ ''_DataType''))
               NC_INT 1 (att_NDAttrDataType (attrDataType a))) h1,
         ok (Nc_put_att_text ncid NC_GLOBAL
               (epicsSnprintf MAX_ATTRIBUTE_STRING_SIZE
                  (getName a MAX_ATTRIBUTE_STRING_SIZE @ ''_Description''))
               (length (getDescription a MAX_ATTRIBUTE_STRING_SIZE))
               (getDescription a MAX_ATTRIBUTE_STRING_SIZE)) h2,
         ok (Nc_def_var ncid (getName a MAX_ATTRIBUTE_STRING_SIZE)
               (the (attr_ncType (attrDataType a)))
               (if attrDataType a = NDAttrString then 2 else 1)
               (if attrDataType a = NDAttrString then sds else [d0])) ident])"

text \<open>
  The calls of the loop of lines 113-122 when all succeed, handing back \<open>ds\<close>, and the calls
  of the loop of lines 186-234 when all succeed.
\<close>

definition dim_events :: "int \<Rightarrow> NDArray \<Rightarrow> int list \<Rightarrow> nc_event list" where
  "dim_events ncid a ds =
     map2 (\<lambda>n d. ok (Nc_def_dim ncid (''dim'' @ decimal n)
                         (size_dim (dims a ! (ndims a - n - 1)))) d) [0..<ndims a] ds"

definition attrs_events ::
  "int \<Rightarrow> int \<Rightarrow> int list \<Rightarrow> NDAttribute list \<Rightarrow> (int \<times> int \<times> int) list \<Rightarrow> nc_event list" where
  "attrs_events ncid d0 sds attrs hs = concat (map2 (attr_events ncid d0 sds) attrs hs)"

text \<open>The identifiers the library hands back in a run of \<^verbatim>\<open>openFile\<close>, one per call.\<close>

record open_handles =
  h_create :: int
  h_dataType :: int
  h_version :: int
  h_numArrayDims :: int
  h_numArrays :: int
  h_dims :: "int list"
  h_attrStringSize :: int
  h_dimSize :: int
  h_dimOffset :: int
  h_dimBinning :: int
  h_dimReverse :: int
  h_uniqueId :: int
  h_timeStamp :: int
  h_array_data :: int
  h_attrs :: "(int \<times> int \<times> int) list"
  h_enddef :: int

text \<open>The calls of a run of \<^verbatim>\<open>openFile\<close> in which every call succeeds.\<close>

definition open_events ::
  "epicsFloat64 \<Rightarrow> string \<Rightarrow> NDFileOpenMode_t \<Rightarrow> NDArray \<Rightarrow> open_handles \<Rightarrow> nc_event list" where
  "open_events V fileName openMode a H =
     (let ncid = h_create H; d0 = h_numArrays H; N = ndims a in
      [ok (Nc_create fileName NC_CLOBBER) ncid,
       ok (Nc_put_att_int ncid NC_GLOBAL ''dataType'' NC_INT 1 (att_NDDataType (dataType a)))
          (h_dataType H),
       ok (Nc_put_att_double ncid NC_GLOBAL ''NDNetCDFFileVersion'' NC_DOUBLE 1 (att_double V))
          (h_version H),
       ok (Nc_put_att_int ncid NC_GLOBAL ''numArrayDims'' NC_INT 1 (att_ints [int N]))
          (h_numArrayDims H),
       ok (Nc_def_dim ncid ''numArrays''
             (if NDFileModeMultiple \<in> openMode then NC_UNLIMITED else 1)) d0]
      @ dim_events ncid a (h_dims H)
      @ [ok (Nc_def_dim ncid ''attrStringSize'' (int MAX_ATTRIBUTE_STRING_SIZE))
            (h_attrStringSize H),
         ok (Nc_put_att_int ncid NC_GLOBAL ''dimSize'' NC_INT N
               (att_ints (map size_dim (dims a)))) (h_dimSize H),
         ok (Nc_put_att_int ncid NC_GLOBAL ''dimOffset'' NC_INT N
               (att_ints (map offset (dims a)))) (h_dimOffset H),
         ok (Nc_put_att_int ncid NC_GLOBAL ''dimBinning'' NC_INT N
               (att_ints (map binning (dims a)))) (h_dimBinning H),
         ok (Nc_put_att_int ncid NC_GLOBAL ''dimReverse'' NC_INT N
               (att_ints (map reverse (dims a)))) (h_dimReverse H),
         ok (Nc_def_var ncid ''uniqueId'' NC_INT 1 [d0]) (h_uniqueId H),
         ok (Nc_def_var ncid ''timeStamp'' NC_DOUBLE 1 [d0]) (h_timeStamp H),
         ok (Nc_def_var ncid ''array_data'' (array_ncType (dataType a)) (N + 1)
               (d0 # h_dims H)) (h_array_data H)]
      @ attrs_events ncid d0 [d0, h_attrStringSize H] (pAttributeList a) (h_attrs H)
      @ [ok (Nc_enddef ncid) (h_enddef H)])"

text \<open>
  The calls \<^verbatim>\<open>writeFile\<close> makes for the attributes, in order, as long as each has an
  identifier in the block and a defined type: the \<open>k\<close>-th attribute with the \<open>k\<close>-th
  identifier.
\<close>

fun attr_requests ::
  "int \<Rightarrow> int list \<Rightarrow> int list \<Rightarrow> NDAttribute list \<Rightarrow> int list \<Rightarrow> nc_request list" where
  "attr_requests ncid start count [] ids = []"
| "attr_requests ncid start count (a # rest) [] = []"
| "attr_requests ncid start count (a # rest) (ident # ids) =
     (case attributeCall ncid ident start count a of
        None \<Rightarrow> []
      | Some rq \<Rightarrow> rq # attr_requests ncid start count rest ids)"

text \<open>The calls of a run of \<^verbatim>\<open>writeFile\<close> in the session \<open>s\<close>, if none fails.\<close>

definition write_requests :: "NDFileNetCDF \<Rightarrow> NDArray \<Rightarrow> nc_request list" where
  "write_requests s a =
     (let start = to_size_t (nextRecord s) # replicate (ndims a) 0;
          count = 1 # rev (map size_dim (dims a))
      in [Nc_put_vara vara_int (ncId s) (uniqueIdId s) start count (data_int (uniqueId a)),
          Nc_put_vara vara_double (ncId s) (timeStampId s) start count
            (data_double (timeStamp a)),
          dataCall (ncId s) (arrayDataId s) start count a]
         @ attr_requests (ncId s) start count (pAttributeList a) (attributeIds s))"

text \<open>
  The table of storage types in the words of the specification: int8/uint8 to byte,
  int16/uint16 to short, int32/uint32 to int, float32 to float, float64 to double, and
  string to char for an attribute.
\<close>

definition array_storage_table :: "(NDDataType_t \<times> nc_type) list" where
  "array_storage_table =
     [(NDInt8, NC_BYTE), (NDUInt8, NC_BYTE), (NDInt16, NC_SHORT), (NDUInt16, NC_SHORT),
      (NDInt32, NC_INT), (NDUInt32, NC_INT), (NDFloat32, NC_FLOAT), (NDFloat64, NC_DOUBLE)]"

definition attr_storage_table :: "(NDAttrDataType_t \<times> nc_type) list" where
  "attr_storage_table =
     [(NDAttrInt8, NC_BYTE), (NDAttrUInt8, NC_BYTE), (NDAttrInt16, NC_SHORT),
      (NDAttrUInt16, NC_SHORT), (NDAttrInt32, NC_INT), (NDAttrUInt32, NC_INT),
      (NDAttrFloat32, NC_FLOAT), (NDAttrFloat64, NC_DOUBLE), (NDAttrString, NC_CHAR)]"




section \<open>Example inputs\<close>

text \<open>A library in which every call succeeds, the \<open>k\<close>-th handing back \<open>100 + k\<close>.\<close>

definition E_ok :: nc_env where
  "E_ok k = (0, 100 + int k)"

text \<open>A library whose call number \<open>n\<close> fails with status \<open>- 1\<close>.\<close>

definition E_fail :: "nat \<Rightarrow> nc_env" where
  "E_fail n k = (if k = n then (- 1, 0) else (0, 100 + int k))"

definition s_new :: NDFileNetCDF where
  "s_new = \<lparr>nextRecord = 7, ncId = 0, uniqueIdId = 0, timeStampId = 0, arrayDataId = 0,
             pAttributeId = None, netcdf = []\<rparr>"

definition dim_of :: "int \<Rightarrow> NDDimension" where
  "dim_of n = \<lparr>size_dim = n, offset = 0, binning = 1, reverse = 0\<rparr>"

definition attr_temp :: NDAttribute where
  "attr_temp = \<lparr>pName = ''Temp'', pDescription = ''temperature'', attrDataType = NDAttrFloat64,
                 attrValue = 5, pString = []\<rparr>"

definition attr_cam :: NDAttribute where
  "attr_cam = \<lparr>pName = ''Cam'', pDescription = ''camera'', attrDataType = NDAttrString,
                attrValue = 0, pString = ''sim''\<rparr>"

definition attr_undef :: NDAttribute where
  "attr_undef = \<lparr>pName = ''U'', pDescription = ''unset'', attrDataType = NDAttrUndefined,
                  attrValue = 0, pString = []\<rparr>"

definition frame234 :: NDArray where
  "frame234 = \<lparr>uniqueId = 1, timeStamp = 9, dims = [dim_of 2, dim_of 3, dim_of 4],
                dataType = NDUInt16, pData = [], pAttributeList = [attr_temp, attr_cam]\<rparr>"

definition frame232 :: NDArray where
  "frame232 = \<lparr>uniqueId = 1, timeStamp = 9, dims = [dim_of 2, dim_of 3, dim_of 2],
                dataType = NDUInt16, pData = [], pAttributeList = []\<rparr>"

definition frame_undef :: NDArray where
  "frame_undef = \<lparr>uniqueId = 2, timeStamp = 10, dims = [dim_of 2, dim_of 3, dim_of 4],
                   dataType = NDUInt16, pData = [], pAttributeList = [attr_temp, attr_undef]\<rparr>"

text \<open>The session after \<^verbatim>\<open>openFile\<close> on \<open>frame234\<close> with that library.\<close>

definition s_open :: NDFileNetCDF where
  "s_open = snd (openFile E_ok 3 ''f.nc'' {NDFileModeWrite} frame234 s_new)"

text \<open>The same in multiple-record mode.\<close>

definition s_multi :: NDFileNetCDF where
  "s_multi = snd (openFile E_ok 3 ''f.nc'' {NDFileModeWrite, NDFileModeMultiple} frame234 s_new)"

text \<open>The open session with the cursor at the largest \<^verbatim>\<open>int\<close>.\<close>

definition s_last :: NDFileNetCDF where
  "s_last = s_open\<lparr>nextRecord := 2147483647\<rparr>"

section \<open>Properties\<close>

subsection \<open>Steps and loops\<close>

lemma nc_call_iff:
  "nc_call E rq s = ((r, h), s1) \<longleftrightarrow>
     E (length (netcdf s)) = (r, h) \<and>
     s1 = s\<lparr>netcdf := netcdf s @ [\<lparr>request = rq, status = r, handle = h\<rparr>]\<rparr>"
  by (cases "E (length (netcdf s))") (auto simp: nc_call_def Let_def)

lemma orERR_Next: "orERR c s = (Next h, s1) \<longleftrightarrow> c s = ((0, h), s1)"
  by (auto simp: orERR_def ERR_def split: prod.splits if_splits)

lemma orERR_Return:
  "orERR c s = (Return r, s1) \<longleftrightarrow> r = asynError \<and> (\<exists>e h. e \<noteq> 0 \<and> c s = ((e, h), s1))"
  by (auto simp: orERR_def ERR_def split: prod.splits if_splits)

lemma orERR_Fault: "orERR c s \<noteq> (Fault, s1)"
  by (auto simp: orERR_def ERR_def split: prod.splits if_splits)

lemma storing_iff:
  "storing put c s = ((r, h), s1) \<longleftrightarrow>
     (\<exists>s0. c s = ((r, h), s0) \<and> s1 = (if r = 0 then put h s0 else s0))"
  by (auto simp: storing_def split: prod.splits)

lemma andThen_Next:
  "andThen m f s = (Next y, s') \<longleftrightarrow> (\<exists>x s1. m s = (Next x, s1) \<and> f x s1 = (Next y, s'))"
  by (auto simp: andThen_def split: prod.splits flow.splits)

lemma andThen_Return:
  "andThen m f s = (Return r, s') \<longleftrightarrow>
     m s = (Return r, s') \<or> (\<exists>x s1. m s = (Next x, s1) \<and> f x s1 = (Return r, s'))"
  by (auto simp: andThen_def split: prod.splits flow.splits)

lemma andThen_Fault:
  "andThen m f s = (Fault, s') \<longleftrightarrow>
     m s = (Fault, s') \<or> (\<exists>x s1. m s = (Next x, s1) \<and> f x s1 = (Fault, s'))"
  by (auto simp: andThen_def split: prod.splits flow.splits)

lemma dimLoop_Next:
  "dimLoop E a i v s = (Next v', s') \<Longrightarrow> i \<le> ndims a \<Longrightarrow>
   \<exists>ds. length ds = ndims a - i \<and>
     s' = s\<lparr>netcdf := netcdf s @
             map2 (\<lambda>n d. ok (Nc_def_dim (ncId s) (''dim'' @ decimal n)
                                (size_dim (dims a ! (ndims a - n - 1)))) d) [i..<ndims a] ds\<rparr> \<and>
     v' = v\<lparr>dimIds := dimIds v @ ds,
            size_l := size_l v @ map size_dim (drop i (dims a)),
            offset_l := offset_l v @ map offset (drop i (dims a)),
            binning_l := binning_l v @ map binning (drop i (dims a)),
            reverse_l := reverse_l v @ map reverse (drop i (dims a))\<rparr>"
proof (induction E a i v s rule: dimLoop.induct)
  case (1 E a i v s)
  show ?case
  proof (cases "i < ndims a")
    case False
    with "1.prems" have i: "i = ndims a" by simp
    from "1.prems"(1) False have "v' = v" "s' = s"
      by (simp_all add: dimLoop.simps [of E a i])
    with i show ?thesis
      by (simp add: ndims_def)
  next
    case True
    obtain r h s1 where c: "nc_call E (Nc_def_dim (ncId s) (''dim'' @ decimal i)
        (size_dim (dims a ! (ndims a - i - 1)))) s = ((r, h), s1)"
      by (metis surj_pair)
    from c have s1: "s1 = s\<lparr>netcdf := netcdf s @ [\<lparr>request = Nc_def_dim (ncId s) (''dim'' @ decimal i)
        (size_dim (dims a ! (ndims a - i - 1))), status = r, handle = h\<rparr>]\<rparr>"
      by (simp add: nc_call_iff)
    from "1.prems"(1) True c have r: "r = 0"
      by (auto simp: dimLoop.simps [of E a i] Let_def ERR_def split: if_splits)
    let ?v1 = "v\<lparr>dimIds := dimIds v @ [h],
                 size_l := size_l v @ [size_dim (dims a ! i)],
                 offset_l := offset_l v @ [offset (dims a ! i)],
                 binning_l := binning_l v @ [binning (dims a ! i)],
                 reverse_l := reverse_l v @ [reverse (dims a ! i)]\<rparr>"
    from "1.prems"(1) True c r have rec: "dimLoop E a (i + 1) ?v1 s1 = (Next v', s')"
      by (simp add: dimLoop.simps [of E a i] Let_def)
    from True have le: "i + 1 \<le> ndims a" by simp
    from "1.IH" [OF True refl refl c [symmetric] refl _ rec le] r
    obtain ds where ds: "length ds = ndims a - (i + 1)"
      and s': "s' = s1\<lparr>netcdf := netcdf s1 @
             map2 (\<lambda>n d. ok (Nc_def_dim (ncId s1) (''dim'' @ decimal n)
                                (size_dim (dims a ! (ndims a - n - 1)))) d) [i + 1..<ndims a] ds\<rparr>"
      and v': "v' = ?v1\<lparr>dimIds := dimIds ?v1 @ ds,
            size_l := size_l ?v1 @ map size_dim (drop (i + 1) (dims a)),
            offset_l := offset_l ?v1 @ map offset (drop (i + 1) (dims a)),
            binning_l := binning_l ?v1 @ map binning (drop (i + 1) (dims a)),
            reverse_l := reverse_l ?v1 @ map reverse (drop (i + 1) (dims a))\<rparr>"
      by auto
    from True have upt: "[i..<ndims a] = i # [i + 1..<ndims a]"
      by (simp add: upt_conv_Cons)
    from True have drp: "drop i (dims a) = dims a ! i # drop (i + 1) (dims a)"
      by (simp add: ndims_def Cons_nth_drop_Suc)
    show ?thesis
      apply (rule exI [of _ "h # ds"])
      using ds True s' v' s1 r
      apply (simp add: upt drp ok_def)
      done
  qed
qed


lemma ncType_step_Next:
  "(case attr_ncType t of None \<Rightarrow> (Return asynError, s) | Some nc \<Rightarrow> (Next nc, s)) = (Next x, s1)
     \<longleftrightarrow> attr_ncType t = Some x \<and> s1 = s"
  by (cases "attr_ncType t") auto

lemma attrLoop_Next:
  "attrLoop E d0 sds attrs k s = (Next u, s') \<Longrightarrow> pAttributeId s = Some ids \<Longrightarrow>
   k + length attrs \<le> length ids \<Longrightarrow>
   \<exists>hs. length hs = length attrs \<and> (\<forall>a \<in> set attrs. attrDataType a \<noteq> NDAttrUndefined) \<and>
     s' = s\<lparr>pAttributeId := Some (take k ids @ map (\<lambda>h. snd (snd h)) hs @ drop (k + length attrs) ids),
            netcdf := netcdf s @ concat (map2 (attr_events (ncId s) d0 sds) attrs hs)\<rparr>"
proof (induction attrs arbitrary: k s ids)
  case Nil
  then show ?case
    by (simp add: attrLoop.simps)
next
  case (Cons a rest)
  let ?t = "attrDataType a"
  let ?name = "getName a MAX_ATTRIBUTE_STRING_SIZE"
  from Cons.prems(1) obtain h1 s1 h2 s2 nc ident s3 where
    c1: "nc_call E (Nc_put_att_int (ncId s) NC_GLOBAL
           (epicsSnprintf MAX_ATTRIBUTE_STRING_SIZE (?name @ ''_DataType''))
           NC_INT 1 (att_NDAttrDataType ?t)) s = ((0, h1), s1)"
    and c2: "nc_call E (Nc_put_att_text (ncId s1) NC_GLOBAL
           (epicsSnprintf MAX_ATTRIBUTE_STRING_SIZE (?name @ ''_Description''))
           (length (getDescription a MAX_ATTRIBUTE_STRING_SIZE))
           (getDescription a MAX_ATTRIBUTE_STRING_SIZE)) s1 = ((0, h2), s2)"
    and nc: "attr_ncType ?t = Some nc"
    and c3: "nc_call E (Nc_def_var (ncId s2) ?name nc (if ?t = NDAttrString then 2 else 1)
           (if ?t = NDAttrString then sds else [d0])) s2 = ((0, ident), s3)"
    and rec: "attrLoop E d0 sds rest (k + 1)
           (s3\<lparr>pAttributeId := map_option (\<lambda>ids. ids[k := ident]) (pAttributeId s3)\<rparr>) = (Next u, s')"
  proof (cases "?t = NDAttrString")
    case True
    with Cons.prems(1) that show ?thesis
      by (simp add: attrLoop.simps Let_def andThen_Next orERR_Next storing_iff getValueInfo_def
            ncType_step_Next) blast
  next
    case False
    with Cons.prems(1) that show ?thesis
      by (simp add: attrLoop.simps Let_def andThen_Next orERR_Next storing_iff getValueInfo_def
            ncType_step_Next) blast
  qed
  from c1 c2 c3 have s3: "s3 = s\<lparr>netcdf := netcdf s @ attr_events (ncId s) d0 sds a (h1, h2, ident)\<rparr>"
    using nc by (auto simp: nc_call_iff attr_events_def ok_def)
  let ?s4 = "s3\<lparr>pAttributeId := map_option (\<lambda>ids. ids[k := ident]) (pAttributeId s3)\<rparr>"
  have p4: "pAttributeId ?s4 = Some (ids[k := ident])"
    using s3 Cons.prems(2) by simp
  have len: "k + 1 + length rest \<le> length (ids[k := ident])"
    using Cons.prems(3) by simp
  from Cons.IH [OF rec p4 len] obtain hs where
    hs: "length hs = length rest" and undef: "\<forall>a \<in> set rest. attrDataType a \<noteq> NDAttrUndefined"
    and s': "s' = ?s4\<lparr>pAttributeId := Some (take (k + 1) (ids[k := ident]) @ map (\<lambda>h. snd (snd h)) hs
                      @ drop (k + 1 + length rest) (ids[k := ident])),
            netcdf := netcdf ?s4 @ concat (map2 (attr_events (ncId ?s4) d0 sds) rest hs)\<rparr>"
    by blast
  from Cons.prems(3) have k: "k < length ids" by simp
  then have tk: "take (k + 1) (ids[k := ident]) = take k ids @ [ident]"
    by (simp add: take_Suc_conv_app_nth)
  have dk: "drop (k + 1 + length rest) (ids[k := ident]) = drop (k + length (a # rest)) ids"
    by simp
  from nc have "?t \<noteq> NDAttrUndefined" by auto
  with undef have undef': "\<forall>a \<in> set (a # rest). attrDataType a \<noteq> NDAttrUndefined" by simp
  show ?case
    apply (rule exI [of _ "(h1, h2, ident) # hs"])
    using hs undef' s' s3 tk dk
    apply simp
    done
qed


lemma dimLoop_Return: "dimLoop E a i v s = (Return r, s') \<Longrightarrow> r = asynError"
proof (induction E a i v s rule: dimLoop.induct)
  case (1 E a i v s)
  show ?case
  proof (cases "i < ndims a")
    case False
    with "1.prems" show ?thesis by (simp add: dimLoop.simps [of E a i])
  next
    case True
    obtain rv h s1 where c: "nc_call E (Nc_def_dim (ncId s) (''dim'' @ decimal i)
        (size_dim (dims a ! (ndims a - i - 1)))) s = ((rv, h), s1)"
      by (metis surj_pair)
    show ?thesis
    proof (cases "rv = 0")
      case False
      with "1.prems" True c show ?thesis
        by (simp add: dimLoop.simps [of E a i] Let_def ERR_def)
    next
      case rv: True
      from "1.prems" True c rv "1.IH" [OF True refl refl c [symmetric] refl] show ?thesis
        by (simp add: dimLoop.simps [of E a i] Let_def)
    qed
  qed
qed

lemma attrLoop_Return: "attrLoop E d0 sds attrs k s = (Return r, s') \<Longrightarrow> r = asynError"
proof (induction attrs arbitrary: k s)
  case Nil
  then show ?case by (simp add: attrLoop.simps)
next
  case (Cons a rest)
  from Cons.prems show ?case
    by (auto simp: attrLoop.simps Let_def andThen_Return orERR_Return
          split: option.splits if_splits dest: Cons.IH)
qed

lemma openFile_success:
  assumes run: "openFile E V fileName openMode a s = (Return asynSuccess, s')"
  shows "\<exists>H. length (h_dims H) = ndims a \<and> length (h_attrs H) = numAttributes a \<and>
           NDFileModeRead \<notin> openMode \<and> NDFileModeAppend \<notin> openMode \<and>
           (\<forall>x \<in> set (pAttributeList a). attrDataType x \<noteq> NDAttrUndefined) \<and>
           s' = \<lparr>nextRecord = 0, ncId = h_create H, uniqueIdId = h_uniqueId H,
                 timeStampId = h_timeStamp H, arrayDataId = h_array_data H,
                 pAttributeId = Some (map (\<lambda>h. snd (snd h)) (h_attrs H)),
                 netcdf = netcdf s @ open_events V fileName openMode a H\<rparr>"
proof -
  from run have modes: "NDFileModeRead \<notin> openMode" "NDFileModeAppend \<notin> openMode"
    by (auto simp: openFile_def split: if_splits)
  let ?dim0 = "if NDFileModeMultiple \<in> openMode then NC_UNLIMITED else 1"
  let ?N = "ndims a"
  from run modes obtain ncid h1 h2 h3 d0 s5 v s6 sd h4 h5 h6 h7 uid tsid adid s14 s15 hend where
    s5: "s5 = s\<lparr>nextRecord := 0, ncId := ncid, netcdf := netcdf s @
          [ok (Nc_create fileName NC_CLOBBER) ncid,
           ok (Nc_put_att_int ncid NC_GLOBAL ''dataType'' NC_INT 1 (att_NDDataType (dataType a))) h1,
           ok (Nc_put_att_double ncid NC_GLOBAL ''NDNetCDFFileVersion'' NC_DOUBLE 1 (att_double V)) h2,
           ok (Nc_put_att_int ncid NC_GLOBAL ''numArrayDims'' NC_INT 1 (att_ints [int ?N])) h3,
           ok (Nc_def_dim ncid ''numArrays'' ?dim0) d0]\<rparr>"
    and loop: "dimLoop E a 0 \<lparr>dimIds = [d0], size_l = [], offset_l = [], binning_l = [],
                    reverse_l = []\<rparr> s5 = (Next v, s6)"
    and s14: "s14 = s6\<lparr>uniqueIdId := uid, timeStampId := tsid,
          netcdf := netcdf s6 @
          [ok (Nc_def_dim (ncId s6) ''attrStringSize'' (int MAX_ATTRIBUTE_STRING_SIZE)) sd,
           ok (Nc_put_att_int (ncId s6) NC_GLOBAL ''dimSize'' NC_INT ?N (att_ints (size_l v))) h4,
           ok (Nc_put_att_int (ncId s6) NC_GLOBAL ''dimOffset'' NC_INT ?N (att_ints (offset_l v))) h5,
           ok (Nc_put_att_int (ncId s6) NC_GLOBAL ''dimBinning'' NC_INT ?N (att_ints (binning_l v))) h6,
           ok (Nc_put_att_int (ncId s6) NC_GLOBAL ''dimReverse'' NC_INT ?N (att_ints (reverse_l v))) h7,
           ok (Nc_def_var (ncId s6) ''uniqueId'' NC_INT 1 [dimIds v ! 0]) uid,
           ok (Nc_def_var (ncId s6) ''timeStamp'' NC_DOUBLE 1 [dimIds v ! 0]) tsid,
           ok (Nc_def_var (ncId s6) ''array_data'' (array_ncType (dataType a)) (?N + 1)
                 (dimIds v)) adid],
          arrayDataId := adid, pAttributeId := Some (replicate (numAttributes a) 0)\<rparr>"
    and aloop: "attrLoop E (dimIds v ! 0) [dimIds v ! 0, sd] (pAttributeList a) 0 s14 = (Next (), s15)"
    and s': "s' = s15\<lparr>netcdf := netcdf s15 @ [ok (Nc_enddef (ncId s15)) hend]\<rparr>"
    apply (simp add: openFile_def andThen_Return orERR_Return orERR_Next andThen_Next storing_iff
           assign_def Let_def nc_call_iff ok_def)
    apply (auto dest: dimLoop_Return attrLoop_Return)
    done
  from dimLoop_Next [OF loop] obtain ds where ds: "length ds = ?N"
    and s6: "s6 = s5\<lparr>netcdf := netcdf s5 @
             map2 (\<lambda>n d. ok (Nc_def_dim (ncId s5) (''dim'' @ decimal n)
                                (size_dim (dims a ! (?N - n - 1)))) d) [0..<?N] ds\<rparr>"
    and v: "v = \<lparr>dimIds = d0 # ds, size_l = map size_dim (dims a), offset_l = map offset (dims a),
              binning_l = map binning (dims a), reverse_l = map reverse (dims a)\<rparr>"
    by auto
  have p14: "pAttributeId s14 = Some (replicate (numAttributes a) 0)"
    by (simp add: s14)
  have "0 + length (pAttributeList a) \<le> length (replicate (numAttributes a) (0::int))"
    by (simp add: numAttributes_def)
  from attrLoop_Next [OF aloop p14 this] obtain hs where hs: "length hs = length (pAttributeList a)"
    and undef: "\<forall>x \<in> set (pAttributeList a). attrDataType x \<noteq> NDAttrUndefined"
    and s15: "s15 = s14\<lparr>pAttributeId := Some (map (\<lambda>h. snd (snd h)) hs),
            netcdf := netcdf s14 @ concat (map2 (attr_events (ncId s14) (dimIds v ! 0)
               [dimIds v ! 0, sd]) (pAttributeList a) hs)\<rparr>"
    by (auto simp: numAttributes_def)
  let ?H = "\<lparr>h_create = ncid, h_dataType = h1, h_version = h2, h_numArrayDims = h3,
     h_numArrays = d0, h_dims = ds, h_attrStringSize = sd, h_dimSize = h4, h_dimOffset = h5,
     h_dimBinning = h6, h_dimReverse = h7, h_uniqueId = uid, h_timeStamp = tsid,
     h_array_data = adid, h_attrs = hs, h_enddef = hend\<rparr>"
  have "s' = \<lparr>nextRecord = 0, ncId = h_create ?H, uniqueIdId = h_uniqueId ?H,
                 timeStampId = h_timeStamp ?H, arrayDataId = h_array_data ?H,
                 pAttributeId = Some (map (\<lambda>h. snd (snd h)) (h_attrs ?H)),
                 netcdf = netcdf s @ open_events V fileName openMode a ?H\<rparr>"
    by (simp add: s' s15 s14 s6 s5 v open_events_def dim_events_def attrs_events_def Let_def)
  with ds hs undef modes show ?thesis
    by (intro exI [of _ ?H]) (simp add: numAttributes_def)
qed

lemma rev_by_index: "map (\<lambda>n. xs ! (length xs - n - 1)) [0..<length xs] = rev xs"
  by (rule nth_equalityI) (simp_all add: rev_nth)

lemma slabLoop_eq:
  "i \<le> ndims a \<Longrightarrow>
   slabLoop a i (st, ct) =
     (st @ replicate (ndims a - i) 0,
      ct @ map (\<lambda>n. size_dim (dims a ! (ndims a - n - 1))) [i..<ndims a])"
proof (induction a i "(st, ct)" arbitrary: st ct rule: slabLoop.induct)
  case (1 a i st ct)
  show ?case
  proof (cases "i < ndims a")
    case False
    then have "slabLoop a i (st, ct) = (st, ct)"
      by (simp add: slabLoop.simps [of a i])
    with False "1.prems" show ?thesis
      by simp
  next
    case True
    then have le: "i + 1 \<le> ndims a" by simp
    from True have upt: "[i..<ndims a] = i # [i + 1..<ndims a]"
      by (simp add: upt_conv_Cons)
    from True have rep: "replicate (ndims a - i) (0::int) = 0 # replicate (ndims a - (i + 1)) 0"
      by (cases "ndims a - i") simp_all
    from "1.hyps" [OF True refl le] True show ?thesis
      by (simp add: slabLoop.simps [of a i] Let_def upt rep)
  qed
qed

lemma slabLoop_0:
  "slabLoop a 0 ([c], [1]) = (c # replicate (ndims a) 0, 1 # rev (map size_dim (dims a)))"
proof -
  have "map (\<lambda>n. size_dim (dims a ! (ndims a - n - 1))) [0..<ndims a] = rev (map size_dim (dims a))"
  proof -
    have "map (\<lambda>n. size_dim (dims a ! (ndims a - n - 1))) [0..<ndims a]
            = map size_dim (map (\<lambda>n. dims a ! (length (dims a) - n - 1)) [0..<length (dims a)])"
      by (simp add: ndims_def)
    then show ?thesis
      by (simp only: rev_by_index rev_map)
  qed
  then show ?thesis
    by (simp add: slabLoop_eq)
qed


lemma readAttributeId_eq:
  "readAttributeId k s =
     (if k < length (attributeIds s) then (Next (attributeIds s ! k), s) else (Fault, s))"
  by (simp add: readAttributeId_def attributeIds_def split: option.splits)

lemma attributeIds_netcdf [simp]: "attributeIds (s\<lparr>netcdf := n\<rparr>) = attributeIds s"
  by (simp add: attributeIds_def)

lemma writeAttrLoop_run:
  "writeAttrLoop E st ct attrs k s = (r, s') \<Longrightarrow>
   \<exists>evs. s' = s\<lparr>netcdf := netcdf s @ evs\<rparr> \<and>
     length evs \<le> length (attr_requests (ncId s) st ct attrs (drop k (attributeIds s))) \<and>
     map request evs
       = take (length evs) (attr_requests (ncId s) st ct attrs (drop k (attributeIds s))) \<and>
     (case r of
        Next u \<Rightarrow> length evs = length attrs \<and> (\<forall>e \<in> set evs. status e = 0)
      | Return x \<Rightarrow> x = asynError
      | Fault \<Rightarrow>
          length evs = length (attr_requests (ncId s) st ct attrs (drop k (attributeIds s))) \<and>
          length (attributeIds s) \<le> k + length evs)"
proof (induction attrs arbitrary: k s)
  case Nil
  then have "r = Next ()" "s' = s"
    by (simp_all add: writeAttrLoop.simps)
  then show ?case
    by (intro exI [of _ "[]"]) simp
next
  case (Cons a rest)
  let ?ids = "attributeIds s"
  show ?case
  proof (cases "k < length ?ids")
    case False
    with Cons.prems have "r = Fault" "s' = s"
      by (simp_all add: writeAttrLoop.simps andThen_def readAttributeId_eq)
    with False show ?thesis
      by (intro exI [of _ "[]"]) simp
  next
    case k: True
    then have drp: "drop k ?ids = ?ids ! k # drop (k + 1) ?ids"
      by (simp add: Cons_nth_drop_Suc)
    show ?thesis
    proof (cases "attributeCall (ncId s) (?ids ! k) st ct a")
      case None
      with Cons.prems k have "r = Return asynError" "s' = s"
        by (simp_all add: writeAttrLoop.simps andThen_def readAttributeId_eq writeAttribute_def)
      with None show ?thesis
        by (intro exI [of _ "[]"]) (simp add: drp)
    next
      case (Some rq)
      obtain rv h s1 where c: "nc_call E rq s = ((rv, h), s1)"
        by (metis surj_pair)
      then have s1: "s1 = s\<lparr>netcdf := netcdf s @ [\<lparr>request = rq, status = rv, handle = h\<rparr>]\<rparr>"
        by (simp add: nc_call_iff)
      show ?thesis
      proof (cases "rv = 0")
        case False
        with Cons.prems k Some c have "r = Return asynError" "s' = s1"
          by (simp_all add: writeAttrLoop.simps andThen_def readAttributeId_eq writeAttribute_def
                orERR_def ERR_def)
        with Some s1 show ?thesis
          by (intro exI [of _ "[\<lparr>request = rq, status = rv, handle = h\<rparr>]"]) (simp add: drp)
      next
        case True
        with Cons.prems k Some c have rec: "writeAttrLoop E st ct rest (k + 1) s1 = (r, s')"
          by (simp add: writeAttrLoop.simps andThen_def readAttributeId_eq writeAttribute_def
                orERR_def ERR_def)
        from Cons.IH [OF rec] obtain evs where
          s': "s' = s1\<lparr>netcdf := netcdf s1 @ evs\<rparr>"
          and len: "length evs \<le> length (attr_requests (ncId s1) st ct rest (drop (k + 1) (attributeIds s1)))"
          and pre: "map request evs
             = take (length evs) (attr_requests (ncId s1) st ct rest (drop (k + 1) (attributeIds s1)))"
          and out: "(case r of
              Next u \<Rightarrow> length evs = length rest \<and> (\<forall>e \<in> set evs. status e = 0)
            | Return x \<Rightarrow> x = asynError
            | Fault \<Rightarrow>
                length evs = length (attr_requests (ncId s1) st ct rest (drop (k + 1) (attributeIds s1))) \<and>
                length (attributeIds s1) \<le> k + 1 + length evs)"
          by blast
        have same: "ncId s1 = ncId s" "attributeIds s1 = attributeIds s"
          by (simp_all add: s1)
        show ?thesis
          apply (rule exI [of _ "\<lparr>request = rq, status = rv, handle = h\<rparr> # evs"])
          using s' len pre out Some True
          apply (simp add: drp same s1 split: flow.splits)
          done
      qed
    qed
  qed
qed


lemma writeFile_run:
  assumes run: "writeFile E a s = (r, s')"
  shows "\<exists>evs.
     s' = s\<lparr>nextRecord := (if r = Return asynSuccess then nextRecord s + 1 else nextRecord s),
            netcdf := netcdf s @ evs\<rparr> \<and>
     length evs \<le> length (write_requests s a) \<and>
     map request evs = take (length evs) (write_requests s a) \<and>
     (case r of
        Next u \<Rightarrow> False
      | Return x \<Rightarrow>
          (x = asynSuccess \<longrightarrow>
             length evs = 3 + length (pAttributeList a) \<and> (\<forall>e \<in> set evs. status e = 0))
      | Fault \<Rightarrow>
          length evs = length (write_requests s a) \<and> length (attributeIds s) + 3 \<le> length evs)"
proof -
  let ?st = "to_size_t (nextRecord s) # replicate (ndims a) 0"
  let ?ct = "1 # rev (map size_dim (dims a))"
  let ?rq1 = "Nc_put_vara vara_int (ncId s) (uniqueIdId s) ?st ?ct (data_int (uniqueId a))"
  let ?rq2 = "Nc_put_vara vara_double (ncId s) (timeStampId s) ?st ?ct (data_double (timeStamp a))"
  let ?rq3 = "dataCall (ncId s) (arrayDataId s) ?st ?ct a"
  let ?plan = "attr_requests (ncId s) ?st ?ct (pAttributeList a) (attributeIds s)"
  have wr: "write_requests s a = ?rq1 # ?rq2 # ?rq3 # ?plan"
    by (simp add: write_requests_def Let_def)
  obtain r1 h1 s1 where c1: "nc_call E ?rq1 s = ((r1, h1), s1)"
    by (metis surj_pair)
  then have s1: "s1 = s\<lparr>netcdf := netcdf s @ [\<lparr>request = ?rq1, status = r1, handle = h1\<rparr>]\<rparr>"
    by (simp add: nc_call_iff)
  show ?thesis
  proof (cases "r1 = 0")
    case False
    with run c1 have "r = Return asynError" "s' = s1"
      by (simp_all add: writeFile_def slabLoop_0 andThen_def orERR_def ERR_def)
    then show ?thesis
      by (intro exI [of _ "[\<lparr>request = ?rq1, status = r1, handle = h1\<rparr>]"]) (simp add: s1 wr)
  next
    case r1: True
    obtain r2 h2 s2 where c2: "nc_call E ?rq2 s1 = ((r2, h2), s2)"
      by (metis surj_pair)
    then have s2: "s2 = s1\<lparr>netcdf := netcdf s1 @ [\<lparr>request = ?rq2, status = r2, handle = h2\<rparr>]\<rparr>"
      by (simp add: nc_call_iff)
    show ?thesis
    proof (cases "r2 = 0")
      case False
      with run c1 r1 c2 have "r = Return asynError" "s' = s2"
        by (simp_all add: writeFile_def slabLoop_0 andThen_def orERR_def ERR_def s1)
      then show ?thesis
        using r1
        by (intro exI [of _ "[\<lparr>request = ?rq1, status = r1, handle = h1\<rparr>,
              \<lparr>request = ?rq2, status = r2, handle = h2\<rparr>]"]) (simp add: s1 s2 wr)
    next
      case r2: True
      obtain r3 h3 s3 where c3: "nc_call E ?rq3 s2 = ((r3, h3), s3)"
        by (metis surj_pair)
      then have s3: "s3 = s2\<lparr>netcdf := netcdf s2 @ [\<lparr>request = ?rq3, status = r3, handle = h3\<rparr>]\<rparr>"
        by (simp add: nc_call_iff)
      show ?thesis
      proof (cases "r3 = 0")
        case False
        with run c1 r1 c2 r2 c3 have "r = Return asynError" "s' = s3"
          by (simp_all add: writeFile_def slabLoop_0 andThen_def orERR_def ERR_def writeData_def
                s1 s2)
        then show ?thesis
          using r1 r2
          by (intro exI [of _ "[\<lparr>request = ?rq1, status = r1, handle = h1\<rparr>,
                \<lparr>request = ?rq2, status = r2, handle = h2\<rparr>,
                \<lparr>request = ?rq3, status = r3, handle = h3\<rparr>]"]) (simp add: s1 s2 s3 wr)
      next
        case r3: True
        obtain r4 s4 where c4: "writeAttrLoop E ?st ?ct (pAttributeList a) 0 s3 = (r4, s4)"
          by (metis surj_pair)
        have same: "ncId s3 = ncId s" "attributeIds s3 = attributeIds s"
          "nextRecord s3 = nextRecord s"
          by (simp_all add: s1 s2 s3)
        let ?plan3 = "attr_requests (ncId s3) ?st ?ct (pAttributeList a) (drop 0 (attributeIds s3))"
        from writeAttrLoop_run [OF c4] obtain evs where
          s4: "s4 = s3\<lparr>netcdf := netcdf s3 @ evs\<rparr>"
          and len: "length evs \<le> length ?plan3"
          and pre: "map request evs = take (length evs) ?plan3"
          and out: "(case r4 of
              Next u \<Rightarrow> length evs = length (pAttributeList a) \<and> (\<forall>e \<in> set evs. status e = 0)
            | Return x \<Rightarrow> x = asynError
            | Fault \<Rightarrow> length evs = length ?plan3 \<and> length (attributeIds s3) \<le> 0 + length evs)"
          by blast
        from c1 r1 c2 r2 c3 r3 c4 have "writeFile E a s = (case r4 of
               Next u \<Rightarrow> (Return asynSuccess, s4\<lparr>nextRecord := nextRecord s4 + 1\<rparr>)
             | Return x \<Rightarrow> (Return x, s4)
             | Fault \<Rightarrow> (Fault, s4))"
          by (simp add: writeFile_def slabLoop_0 andThen_def orERR_def ERR_def writeData_def
                assign_def s1 s2 split: flow.splits)
        with run have fin: "(r, s') = (case r4 of
               Next u \<Rightarrow> (Return asynSuccess, s4\<lparr>nextRecord := nextRecord s4 + 1\<rparr>)
             | Return x \<Rightarrow> (Return x, s4)
             | Fault \<Rightarrow> (Fault, s4))"
          by simp
        let ?evs = "\<lparr>request = ?rq1, status = r1, handle = h1\<rparr> #
                \<lparr>request = ?rq2, status = r2, handle = h2\<rparr> #
                \<lparr>request = ?rq3, status = r3, handle = h3\<rparr> # evs"
        show ?thesis
          apply (rule exI [of _ ?evs])
          using fin out len pre r1 r2 r3
          apply (cases r4)
            apply (simp_all add: same wr)
            apply (simp_all add: s1 s2 s3 s4)
          done
      qed
    qed
  qed
qed

lemmas run_defs = openFile_def writeFile_def closeFile_def andThen_def orERR_def ERR_def nc_call_def
  storing_def assign_def Let_def dimLoop.simps attrLoop.simps slabLoop.simps writeAttrLoop.simps
  writeAttribute_def writeData_def readAttributeId_def attributeCall_def dataCall_def
  getName_def getDescription_def getValueString_def getValueInfo_def getValue_def copy_text_def
  epicsSnprintf_def ndims_def numAttributes_def MAX_ATTRIBUTE_STRING_SIZE_def
  NC_CLOBBER_def NC_GLOBAL_def NC_UNLIMITED_def decimal.simps digit_char_def new_events_def
  attributeIds_def to_size_t_def

lemmas ex_defs = E_ok_def E_fail_def s_new_def dim_of_def attr_temp_def attr_cam_def attr_undef_def
  frame234_def frame232_def frame_undef_def s_open_def s_multi_def s_last_def

subsection \<open>The open mode\<close>

text \<open>
  C6. With the read flag or the append flag set, \<^verbatim>\<open>openFile\<close> returns \<^verbatim>\<open>asynError\<close> and leaves
  the session as it was, the record of library calls included: no call is made, so
  \<^verbatim>\<open>nc_create\<close> is not reached and no file is created or modified. This holds for every file
  name, frame, library and session.
\<close>

theorem openFile_rejects_read_append:
  "NDFileModeRead \<in> openMode \<or> NDFileModeAppend \<in> openMode \<Longrightarrow>
   openFile E V fileName openMode pArray s = (Return asynError, s)"
  by (auto simp: openFile_def)

theorem openFile_rejects_read_append_witness:
  "(NDFileModeRead \<in> {NDFileModeRead, NDFileModeMultiple} \<or>
      NDFileModeAppend \<in> {NDFileModeRead, NDFileModeMultiple}) \<and>
   openFile E_ok 3 ''f.nc'' {NDFileModeRead, NDFileModeMultiple} frame234 s_new
     = (Return asynError, s_new) \<and>
   new_events s_new (snd (openFile E_ok 3 ''f.nc'' {NDFileModeRead, NDFileModeMultiple}
                            frame234 s_new)) = []"
  using openFile_rejects_read_append
          [of "{NDFileModeRead, NDFileModeMultiple}" E_ok 3 "''f.nc''" frame234 s_new]
  by (simp add: new_events_def)

subsection \<open>The calls of writeFile\<close>

lemma dataCall_start:
  "\<exists>fn. dataCall ncid varid st ct a = Nc_put_vara fn ncid varid st ct (data_buffer (pData a))"
  by (cases "dataType a") (simp_all add: dataCall_def)

lemma attributeCall_start:
  "attributeCall ncid ident st ct a = Some rq \<Longrightarrow>
   \<exists>fn ct' d. rq = Nc_put_vara fn ncid ident st ct' d \<and> (fn \<noteq> vara_text \<longrightarrow> ct' = ct)"
  by (cases "attrDataType a") (auto simp: attributeCall_def getValueInfo_def Let_def)

lemma attr_requests_start:
  "rq \<in> set (attr_requests ncid st ct attrs ids) \<Longrightarrow>
   \<exists>fn ident ct' d. rq = Nc_put_vara fn ncid ident st ct' d \<and> (fn \<noteq> vara_text \<longrightarrow> ct' = ct)"
proof (induction ncid st ct attrs ids rule: attr_requests.induct)
  case (3 ncid st ct a rest ident ids)
  show ?case
  proof (cases "attributeCall ncid ident st ct a")
    case None
    with "3.prems" show ?thesis by simp
  next
    case (Some rq')
    with "3.prems" have "rq = rq' \<or> rq \<in> set (attr_requests ncid st ct rest ids)"
      by auto
    then show ?thesis
    proof
      assume "rq = rq'"
      with Some attributeCall_start [of ncid ident st ct a rq'] show ?thesis by blast
    next
      assume "rq \<in> set (attr_requests ncid st ct rest ids)"
      with "3.IH" [OF Some] show ?thesis by blast
    qed
  qed
qed simp_all

lemma write_requests_start:
  "rq \<in> set (write_requests s a) \<Longrightarrow>
   \<exists>fn varid ct' d. rq = Nc_put_vara fn (ncId s) varid (to_size_t (nextRecord s) # replicate (ndims a) 0) ct' d
      \<and> (fn \<noteq> vara_text \<longrightarrow> ct' = 1 # rev (map size_dim (dims a)))"
  using dataCall_start [of "ncId s" "arrayDataId s" "to_size_t (nextRecord s) # replicate (ndims a) 0"
          "1 # rev (map size_dim (dims a))" a]
  by (auto simp: write_requests_def Let_def dest: attr_requests_start)

lemma writeFile_events:
  assumes "writeFile E a s = (r, s')"
  shows "set (map request (new_events s s')) \<subseteq> set (write_requests s a)"
proof -
  from writeFile_run [OF assms] obtain evs where
    "netcdf s' = netcdf s @ evs" "map request evs = take (length evs) (write_requests s a)"
    by auto
  then show ?thesis
    by (simp add: new_events_def set_take_subset)
qed

lemma to_size_t_nonneg: "0 \<le> sint i \<Longrightarrow> to_size_t i = sint i"
proof -
  assume a: "0 \<le> sint i"
  have "sint i < 2 ^ (LENGTH(32) - 1)" by (rule sint_lt)
  then have "sint i < 2 ^ 64" by simp
  with a show ?thesis by (simp add: to_size_t_def)
qed

lemma to_size_t_neg: "sint i < 0 \<Longrightarrow> to_size_t i = sint i + 2 ^ 64"
proof -
  assume a: "sint i < 0"
  have "- (2 ^ (LENGTH(32) - 1)) \<le> sint i" by (rule sint_ge)
  then have b: "- (2 ^ 64) \<le> sint i" by simp
  from a b have "(sint i + 2 ^ 64) mod 2 ^ 64 = sint i + 2 ^ 64"
    by (intro mod_pos_pos_trivial) simp_all
  then show ?thesis by (simp add: to_size_t_def)
qed

lemma cursor_next:
  fixes c :: "32 word"
  shows "sint c < 2147483647 \<Longrightarrow> sint (c + 1) = sint c + 1"
    and "sint c = 2147483647 \<Longrightarrow> sint (c + 1) = - 2147483648"
proof -
  have lo: "- (2 ^ (LENGTH(32) - 1)) \<le> sint c" by (rule sint_ge)
  {
    assume "sint c < 2147483647"
    with lo have "signed_take_bit 31 (sint c + 1) = sint c + 1"
      by (intro signed_take_bit_int_eq_self) simp_all
    then show "sint (c + 1) = sint c + 1"
      by (simp add: sint_word_ariths)
  }
  {
    assume "sint c = 2147483647"
    then show "sint (c + 1) = - 2147483648"
      by (simp add: sint_word_ariths)
  }
qed

lemma cursor_of_nat:
  "n < 2147483648 \<Longrightarrow> sint (of_nat n :: 32 word) = int n"
proof -
  assume "n < 2147483648"
  then have "signed_take_bit 31 (int n) = int n"
    by (intro signed_take_bit_int_eq_self) simp_all
  then show ?thesis by (simp add: signed_of_nat)
qed

lemma writeFiles_cursor:
  "writes_succeed E frames s \<Longrightarrow>
   nextRecord (writeFiles E frames s) = nextRecord s + of_nat (length frames)"
proof (induction frames arbitrary: s)
  case Nil
  show ?case by simp
next
  case (Cons a rest)
  from Cons.prems have w: "writeFile E a s = (Return asynSuccess, snd (writeFile E a s))"
    and r: "writes_succeed E rest (snd (writeFile E a s))"
    by (simp_all add: prod_eq_iff)
  from writeFile_run [OF w] have "nextRecord (snd (writeFile E a s)) = nextRecord s + 1"
    by auto
  with Cons.IH [OF r] show ?case by simp
qed

text \<open>
  C4. The cursor \<open>nextRecord\<close> is 0 after an \<^verbatim>\<open>openFile\<close> that returns \<^verbatim>\<open>asynSuccess\<close>. A
  \<^verbatim>\<open>writeFile\<close> that returns \<^verbatim>\<open>asynSuccess\<close> adds exactly 1 to it, in the arithmetic of the
  32-bit \<^verbatim>\<open>int\<close>: read as an integer the cursor grows by 1, except at \<open>2147483647\<close>, after
  which it is \<open>-2147483648\<close>. A \<^verbatim>\<open>writeFile\<close> that returns \<^verbatim>\<open>asynError\<close>, or anything but
  \<^verbatim>\<open>asynSuccess\<close>, leaves it as it was. Every call a \<^verbatim>\<open>writeFile\<close> makes, whatever it returns,
  is a slab write whose \<^verbatim>\<open>start\<close> array begins with the cursor at entry, converted to
  \<^verbatim>\<open>size_t\<close>, and is 0 on the frame's axes; the conversion keeps the value of a cursor that
  is not negative and adds \<open>2 ^ 64\<close> to a negative one. After a successful \<^verbatim>\<open>openFile\<close> and
  \<open>n\<close> calls of \<^verbatim>\<open>writeFile\<close> that all return \<^verbatim>\<open>asynSuccess\<close> the cursor is \<open>n\<close> as a word of 32
  bits, and for \<open>n < 2147483648\<close> it is the integer \<open>n\<close>, which is also the start of the
  next slab.
\<close>

theorem write_cursor:
  "(openFile E V fileName openMode pArray s = (Return asynSuccess, s1) \<longrightarrow> nextRecord s1 = 0) \<and>
   (writeFile E pArray s = (Return asynSuccess, s2) \<longrightarrow>
      nextRecord s2 = nextRecord s + 1 \<and>
      (sint (nextRecord s) < 2147483647 \<longrightarrow> sint (nextRecord s2) = sint (nextRecord s) + 1) \<and>
      (sint (nextRecord s) = 2147483647 \<longrightarrow> sint (nextRecord s2) = - 2147483648)) \<and>
   (writeFile E pArray s = (Return asynError, s3) \<longrightarrow> nextRecord s3 = nextRecord s) \<and>
   (writeFile E pArray s = (r, s4) \<longrightarrow>
      (r \<noteq> Return asynSuccess \<longrightarrow> nextRecord s4 = nextRecord s) \<and>
      (\<forall>e \<in> set (new_events s s4). \<exists>fn varid ct d.
         request e = Nc_put_vara fn (ncId s) varid
                       (to_size_t (nextRecord s) # replicate (ndims pArray) 0) ct d)) \<and>
   (0 \<le> sint (nextRecord s) \<longrightarrow> to_size_t (nextRecord s) = sint (nextRecord s)) \<and>
   (sint (nextRecord s) < 0 \<longrightarrow> to_size_t (nextRecord s) = sint (nextRecord s) + 2 ^ 64) \<and>
   (openFile E V fileName openMode pArray s = (Return asynSuccess, s1) \<and>
    writes_succeed E frames s1 \<longrightarrow>
      nextRecord (writeFiles E frames s1) = of_nat (length frames) \<and>
      (length frames < 2147483648 \<longrightarrow>
         sint (nextRecord (writeFiles E frames s1)) = int (length frames) \<and>
         to_size_t (nextRecord (writeFiles E frames s1)) = int (length frames)))"
proof (intro conjI impI)
  assume "openFile E V fileName openMode pArray s = (Return asynSuccess, s1)"
  from openFile_success [OF this] show "nextRecord s1 = 0" by auto
next
  assume "writeFile E pArray s = (Return asynSuccess, s2)"
  from writeFile_run [OF this] show n: "nextRecord s2 = nextRecord s + 1" by auto
  {
    assume "sint (nextRecord s) < 2147483647"
    then show "sint (nextRecord s2) = sint (nextRecord s) + 1"
      by (simp only: n cursor_next)
  }
  {
    assume "sint (nextRecord s) = 2147483647"
    then show "sint (nextRecord s2) = - 2147483648"
      by (simp only: n cursor_next)
  }
next
  assume "writeFile E pArray s = (Return asynError, s3)"
  from writeFile_run [OF this] show "nextRecord s3 = nextRecord s" by auto
next
  assume "writeFile E pArray s = (r, s4)" "r \<noteq> Return asynSuccess"
  from writeFile_run [OF this(1)] this(2) show "nextRecord s4 = nextRecord s" by auto
next
  assume "writeFile E pArray s = (r, s4)"
  from writeFile_events [OF this] write_requests_start [of _ s pArray]
  show "\<forall>e \<in> set (new_events s s4). \<exists>fn varid ct d.
         request e = Nc_put_vara fn (ncId s) varid (to_size_t (nextRecord s) # replicate (ndims pArray) 0) ct d"
    by (auto simp: subset_iff) blast
next
  assume "0 \<le> sint (nextRecord s)"
  then show "to_size_t (nextRecord s) = sint (nextRecord s)" by (rule to_size_t_nonneg)
next
  assume "sint (nextRecord s) < 0"
  then show "to_size_t (nextRecord s) = sint (nextRecord s) + 2 ^ 64" by (rule to_size_t_neg)
next
  assume a: "openFile E V fileName openMode pArray s = (Return asynSuccess, s1) \<and>
    writes_succeed E frames s1"
  from a openFile_success [of E V fileName openMode pArray s s1] have z: "nextRecord s1 = 0"
    by auto
  from a writeFiles_cursor [of E frames s1] z
  show c: "nextRecord (writeFiles E frames s1) = of_nat (length frames)"
    by simp
  assume l: "length frames < 2147483648"
  then show s: "sint (nextRecord (writeFiles E frames s1)) = int (length frames)"
    by (simp only: c cursor_of_nat)
  then have "0 \<le> sint (nextRecord (writeFiles E frames s1))" by simp
  from to_size_t_nonneg [OF this] s
  show "to_size_t (nextRecord (writeFiles E frames s1)) = int (length frames)"
    by simp
qed

theorem write_cursor_witness:
  "openFile E_ok 3 ''f.nc'' {NDFileModeWrite} frame234 s_new = (Return asynSuccess, s_open) \<and>
   nextRecord s_new = 7 \<and> nextRecord s_open = 0 \<and>
   writeFile E_ok frame234 s_open = (Return asynSuccess, snd (writeFile E_ok frame234 s_open)) \<and>
   nextRecord (snd (writeFile E_ok frame234 s_open)) = 1 \<and>
   sint (nextRecord (snd (writeFile E_ok frame234 s_open))) = 1 \<and>
   writeFile (E_fail 25) frame234 s_open
     = (Return asynError, snd (writeFile (E_fail 25) frame234 s_open)) \<and>
   nextRecord (snd (writeFile (E_fail 25) frame234 s_open)) = 0 \<and>
   length (new_events s_open (snd (writeFile E_ok frame234 s_open))) = 5 \<and>
   map (\<lambda>e. case request e of Nc_put_vara fn ncid varid start ct d \<Rightarrow> start | _ \<Rightarrow> [])
     (new_events s_open (snd (writeFile E_ok frame234 s_open)))
     = [[0, 0, 0, 0], [0, 0, 0, 0], [0, 0, 0, 0], [0, 0, 0, 0], [0, 0, 0, 0]] \<and>
   sint (nextRecord s_last) = 2147483647 \<and>
   writeFile E_ok frame234 s_last = (Return asynSuccess, snd (writeFile E_ok frame234 s_last)) \<and>
   sint (nextRecord (snd (writeFile E_ok frame234 s_last))) = - 2147483648 \<and>
   to_size_t (nextRecord (snd (writeFile E_ok frame234 s_last))) = 18446744071562067968 \<and>
   map (\<lambda>e. case request e of Nc_put_vara fn ncid varid start ct d \<Rightarrow> hd start | _ \<Rightarrow> 0)
     (new_events s_last (snd (writeFile E_ok frame234 s_last)))
     = [2147483647, 2147483647, 2147483647, 2147483647, 2147483647] \<and>
   openFile E_ok 3 ''f.nc'' {NDFileModeWrite, NDFileModeMultiple} frame234 s_new
     = (Return asynSuccess, s_multi) \<and>
   writes_succeed E_ok [frame234, frame234] s_multi \<and>
   nextRecord (writeFiles E_ok [frame234, frame234] s_multi) = 2 \<and>
   to_size_t (nextRecord (writeFiles E_ok [frame234, frame234] s_multi)) = 2"
proof -
  have h1: "openFile E_ok 3 ''f.nc'' {NDFileModeWrite} frame234 s_new = (Return asynSuccess, s_open)"
    by (simp add: run_defs ex_defs)
  have h2: "writeFile E_ok frame234 s_open
              = (Return asynSuccess, snd (writeFile E_ok frame234 s_open))"
    by (simp add: run_defs ex_defs)
  have h3: "writeFile (E_fail 25) frame234 s_open
              = (Return asynError, snd (writeFile (E_fail 25) frame234 s_open))"
    by (simp add: run_defs ex_defs)
  have h4: "length (new_events s_open (snd (writeFile E_ok frame234 s_open))) = 5"
    by (simp add: run_defs ex_defs)
  have c: "to_size_t (nextRecord s_open) # replicate (ndims frame234) 0 = [0, 0, 0, 0]"
    "nextRecord s_new = 7"
    by (simp_all add: run_defs ex_defs)
  have h5: "map (\<lambda>e. case request e of Nc_put_vara fn ncid varid start ct d \<Rightarrow> start | _ \<Rightarrow> [])
     (new_events s_open (snd (writeFile E_ok frame234 s_open)))
     = [[0, 0, 0, 0], [0, 0, 0, 0], [0, 0, 0, 0], [0, 0, 0, 0], [0, 0, 0, 0]]"
    by (simp add: run_defs ex_defs)
  have h6: "sint (nextRecord s_last) = 2147483647"
    by (simp add: s_last_def)
  have h7: "writeFile E_ok frame234 s_last
              = (Return asynSuccess, snd (writeFile E_ok frame234 s_last))"
    by (simp add: run_defs ex_defs)
  have h8: "map (\<lambda>e. case request e of Nc_put_vara fn ncid varid start ct d \<Rightarrow> hd start | _ \<Rightarrow> 0)
     (new_events s_last (snd (writeFile E_ok frame234 s_last)))
     = [2147483647, 2147483647, 2147483647, 2147483647, 2147483647]"
    by (simp add: run_defs ex_defs)
  have h9: "openFile E_ok 3 ''f.nc'' {NDFileModeWrite, NDFileModeMultiple} frame234 s_new
     = (Return asynSuccess, s_multi)"
    by (simp add: run_defs ex_defs)
  have h10: "writes_succeed E_ok [frame234, frame234] s_multi"
    by (simp add: run_defs ex_defs)
  from write_cursor [of E_ok 3 "''f.nc''" "{NDFileModeWrite}" frame234 s_new s_open] h1
  have t1: "nextRecord s_open = 0"
    by blast
  from write_cursor [of E_ok 3 "''f.nc''" "{NDFileModeWrite}" frame234 s_open s_open
      "snd (writeFile E_ok frame234 s_open)"] h2 t1
  have t2: "nextRecord (snd (writeFile E_ok frame234 s_open)) = 1"
    "sint (nextRecord (snd (writeFile E_ok frame234 s_open))) = 1"
    by simp_all
  from write_cursor [of "E_fail 25" 3 "''f.nc''" "{NDFileModeWrite}" frame234 s_open s_open s_open
      "snd (writeFile (E_fail 25) frame234 s_open)"] h3 t1
  have t3: "nextRecord (snd (writeFile (E_fail 25) frame234 s_open)) = 0"
    by simp
  from write_cursor [of E_ok 3 "''f.nc''" "{NDFileModeWrite}" frame234 s_last s_last
      "snd (writeFile E_ok frame234 s_last)"] h6 h7
  have t4: "sint (nextRecord (snd (writeFile E_ok frame234 s_last))) = - 2147483648"
    by blast
  from write_cursor [of E_ok 3 "''f.nc''" "{NDFileModeWrite}" frame234
      "snd (writeFile E_ok frame234 s_last)"] t4
  have t5: "to_size_t (nextRecord (snd (writeFile E_ok frame234 s_last))) = 18446744071562067968"
    by simp
  from write_cursor [of E_ok 3 "''f.nc''" "{NDFileModeWrite, NDFileModeMultiple}" frame234 s_new
      s_multi s_multi s_multi "Return asynSuccess" s_multi "[frame234, frame234]"] h9 h10
  have t6': "nextRecord (writeFiles E_ok [frame234, frame234] s_multi)
               = of_nat (length [frame234, frame234])"
    "length [frame234, frame234] < 2147483648 \<longrightarrow>
     to_size_t (nextRecord (writeFiles E_ok [frame234, frame234] s_multi))
       = int (length [frame234, frame234])"
    by blast+
  from t6'(1) have t6: "nextRecord (writeFiles E_ok [frame234, frame234] s_multi) = 2"
    by simp
  from t6'(2) have t7: "to_size_t (nextRecord (writeFiles E_ok [frame234, frame234] s_multi)) = 2"
    by simp
  from h1 h2 h3 h4 h5 h6 h7 h8 h9 h10 c(2) t1 t2 t3 t4 t5 t6 t7 show ?thesis
    by (simp only: simp_thms)
qed

subsection \<open>What a successful openFile leaves in the file\<close>

lemma dim_defs_append: "dim_defs (xs @ ys) = dim_defs xs @ dim_defs ys"
  by (induction xs) (auto split: nc_request.splits)

lemma var_defs_append: "var_defs (xs @ ys) = var_defs xs @ var_defs ys"
  by (induction xs) (auto split: nc_request.splits)

lemma global_ints_append: "global_ints (xs @ ys) = global_ints xs @ global_ints ys"
  by (induction xs) (auto split: nc_request.splits)

lemma defs_of_map2_dim:
  "length ds = length ns \<Longrightarrow>
   dim_defs (map2 (\<lambda>n d. ok (Nc_def_dim ncid (f n) (g n)) d) ns ds)
     = map2 (\<lambda>n d. (f n, g n, d)) ns ds \<and>
   var_defs (map2 (\<lambda>n d. ok (Nc_def_dim ncid (f n) (g n)) d) ns ds) = [] \<and>
   global_ints (map2 (\<lambda>n d. ok (Nc_def_dim ncid (f n) (g n)) d) ns ds) = []"
  by (induction ds ns rule: list_induct2) (simp_all add: ok_def)

lemma map2_fst: "length ys = length xs \<Longrightarrow> map (\<lambda>(x, y). f x) (zip xs ys) = map f xs"
  by (induction ys xs rule: list_induct2) simp_all

lemma map2_snd: "length ys = length xs \<Longrightarrow> map (\<lambda>(x, y). g y) (zip xs ys) = map g ys"
  by (induction ys xs rule: list_induct2) simp_all

lemma axis_lengths:
  "map (\<lambda>n. size_dim (dims a ! (ndims a - n - 1))) [0..<ndims a] = rev (map size_dim (dims a))"
proof -
  have "map (\<lambda>n. size_dim (dims a ! (ndims a - n - 1))) [0..<ndims a]
          = map size_dim (map (\<lambda>n. dims a ! (length (dims a) - n - 1)) [0..<length (dims a)])"
    by (simp add: ndims_def)
  then show ?thesis
    by (simp only: rev_by_index rev_map)
qed

lemma defs_of_dim_events:
  assumes "length ds = ndims a"
  shows "map fst (dim_defs (dim_events ncid a ds)) = map (\<lambda>n. ''dim'' @ decimal n) [0..<ndims a]"
    and "map (\<lambda>d. fst (snd d)) (dim_defs (dim_events ncid a ds)) = rev (map size_dim (dims a))"
    and "map (\<lambda>d. snd (snd d)) (dim_defs (dim_events ncid a ds)) = ds"
    and "var_defs (dim_events ncid a ds) = []"
    and "global_ints (dim_events ncid a ds) = []"
proof -
  let ?f = "\<lambda>n. ''dim'' @ decimal n"
  let ?g = "\<lambda>n. size_dim (dims a ! (ndims a - n - 1))"
  from assms have len: "length ds = length [0..<ndims a]" by simp
  note D = defs_of_map2_dim [OF len, of ncid ?f ?g]
  from D show "var_defs (dim_events ncid a ds) = []" "global_ints (dim_events ncid a ds) = []"
    by (simp_all only: dim_events_def)
  from D have dd: "dim_defs (dim_events ncid a ds) = map2 (\<lambda>n d. (?f n, ?g n, d)) [0..<ndims a] ds"
    by (simp only: dim_events_def)
  show "map fst (dim_defs (dim_events ncid a ds)) = map ?f [0..<ndims a]"
    using map2_fst [OF len, of ?f] by (simp add: dd split_def o_def)
  show "map (\<lambda>d. fst (snd d)) (dim_defs (dim_events ncid a ds)) = rev (map size_dim (dims a))"
    using map2_fst [OF len, of ?g] axis_lengths [of a] by (simp add: dd split_def o_def)
  show "map (\<lambda>d. snd (snd d)) (dim_defs (dim_events ncid a ds)) = ds"
    using map2_snd [OF len, of "\<lambda>d. d"] by (simp add: dd split_def o_def)
qed

lemma defs_of_attr_events:
  "dim_defs (attr_events ncid d0 sds a h @ es) = dim_defs es"
  "var_defs (attr_events ncid d0 sds a h @ es)
     = (getName a MAX_ATTRIBUTE_STRING_SIZE, the (attr_ncType (attrDataType a)),
        (if attrDataType a = NDAttrString then sds else [d0]), snd (snd h)) # var_defs es"
  "global_ints (attr_events ncid d0 sds a h @ es)
     = (epicsSnprintf MAX_ATTRIBUTE_STRING_SIZE (getName a MAX_ATTRIBUTE_STRING_SIZE @ ''_DataType''),
        att_NDAttrDataType (attrDataType a)) # global_ints es"
  by (simp_all add: attr_events_def ok_def split: prod.splits)

lemma defs_of_attrs_events:
  "length hs = length attrs \<Longrightarrow>
   dim_defs (attrs_events ncid d0 sds attrs hs) = [] \<and>
   var_defs (attrs_events ncid d0 sds attrs hs)
     = map2 (\<lambda>a h. (getName a MAX_ATTRIBUTE_STRING_SIZE, the (attr_ncType (attrDataType a)),
                     (if attrDataType a = NDAttrString then sds else [d0]), snd (snd h))) attrs hs \<and>
   global_ints (attrs_events ncid d0 sds attrs hs)
     = map (\<lambda>a. (epicsSnprintf MAX_ATTRIBUTE_STRING_SIZE
                      (getName a MAX_ATTRIBUTE_STRING_SIZE @ ''_DataType''),
                   att_NDAttrDataType (attrDataType a))) attrs"
  unfolding attrs_events_def
  by (induction hs attrs rule: list_induct2) (simp_all add: defs_of_attr_events)

lemma open_dim_defs:
  assumes "length (h_dims H) = ndims a" "length (h_attrs H) = numAttributes a"
  shows "map fst (dim_defs (open_events V fileName openMode a H))
           = ''numArrays'' # map (\<lambda>n. ''dim'' @ decimal n) [0..<ndims a] @ [''attrStringSize'']"
    and "map (\<lambda>d. fst (snd d)) (dim_defs (open_events V fileName openMode a H))
           = (if NDFileModeMultiple \<in> openMode then NC_UNLIMITED else 1)
               # rev (map size_dim (dims a)) @ [int MAX_ATTRIBUTE_STRING_SIZE]"
    and "map (\<lambda>d. snd (snd d)) (dim_defs (open_events V fileName openMode a H))
           = h_numArrays H # h_dims H @ [h_attrStringSize H]"
  using assms defs_of_dim_events [of "h_dims H" a "h_create H"]
    defs_of_attrs_events [of "h_attrs H" "pAttributeList a"]
  by (simp_all add: open_events_def Let_def dim_defs_append ok_def numAttributes_def)

lemma open_var_defs:
  assumes "length (h_dims H) = ndims a" "length (h_attrs H) = numAttributes a"
  shows "var_defs (open_events V fileName openMode a H)
           = [(''uniqueId'', NC_INT, [h_numArrays H], h_uniqueId H),
              (''timeStamp'', NC_DOUBLE, [h_numArrays H], h_timeStamp H),
              (''array_data'', array_ncType (dataType a), h_numArrays H # h_dims H,
                 h_array_data H)]
             @ map2 (\<lambda>a h. (getName a MAX_ATTRIBUTE_STRING_SIZE, the (attr_ncType (attrDataType a)),
                     (if attrDataType a = NDAttrString then [h_numArrays H, h_attrStringSize H]
                      else [h_numArrays H]), snd (snd h))) (pAttributeList a) (h_attrs H)"
  using assms defs_of_dim_events [of "h_dims H" a "h_create H"]
    defs_of_attrs_events [of "h_attrs H" "pAttributeList a"]
  by (simp add: open_events_def Let_def var_defs_append ok_def numAttributes_def)

lemma open_global_ints:
  assumes "length (h_dims H) = ndims a" "length (h_attrs H) = numAttributes a"
  shows "global_ints (open_events V fileName openMode a H)
           = [(''dataType'', att_NDDataType (dataType a)),
              (''numArrayDims'', att_ints [int (ndims a)]),
              (''dimSize'', att_ints (map size_dim (dims a))),
              (''dimOffset'', att_ints (map offset (dims a))),
              (''dimBinning'', att_ints (map binning (dims a))),
              (''dimReverse'', att_ints (map reverse (dims a)))]
             @ map (\<lambda>a. (epicsSnprintf MAX_ATTRIBUTE_STRING_SIZE
                      (getName a MAX_ATTRIBUTE_STRING_SIZE @ ''_DataType''),
                   att_NDAttrDataType (attrDataType a))) (pAttributeList a)"
  using assms defs_of_dim_events [of "h_dims H" a "h_create H"]
    defs_of_attrs_events [of "h_attrs H" "pAttributeList a"]
  by (simp add: open_events_def Let_def global_ints_append ok_def numAttributes_def)

lemma openFile_new_events:
  assumes "openFile E V fileName openMode a s = (Return asynSuccess, s1)"
  shows "\<exists>H. length (h_dims H) = ndims a \<and> length (h_attrs H) = numAttributes a \<and>
           NDFileModeRead \<notin> openMode \<and> NDFileModeAppend \<notin> openMode \<and>
           (\<forall>x \<in> set (pAttributeList a). attrDataType x \<noteq> NDAttrUndefined) \<and>
           nextRecord s1 = 0 \<and> ncId s1 = h_create H \<and> uniqueIdId s1 = h_uniqueId H \<and>
           timeStampId s1 = h_timeStamp H \<and> arrayDataId s1 = h_array_data H \<and>
           pAttributeId s1 = Some (map (\<lambda>h. snd (snd h)) (h_attrs H)) \<and>
           new_events s s1 = open_events V fileName openMode a H"
  using openFile_success [OF assms] by (auto simp: new_events_def)

subsection \<open>The calls of any run of openFile\<close>


















subsection \<open>The axes of any run of openFile\<close>



















subsection \<open>The outcomes of openFile\<close>

lemma dimLoop_Fault: "dimLoop E a i v s \<noteq> (Fault, s')"
proof (induction E a i v s rule: dimLoop.induct)
  case (1 E a i v s)
  show ?case
  proof (cases "i < ndims a")
    case False
    then show ?thesis by (simp add: dimLoop.simps [of E a i])
  next
    case True
    obtain rv h s1 where c: "nc_call E (Nc_def_dim (ncId s) (''dim'' @ decimal i)
        (size_dim (dims a ! (ndims a - i - 1)))) s = ((rv, h), s1)"
      by (metis surj_pair)
    show ?thesis
    proof (cases "rv = 0")
      case False
      with True c show ?thesis
        by (simp add: dimLoop.simps [of E a i] Let_def ERR_def)
    next
      case rv: True
      from True c rv "1.IH" [OF True refl refl c [symmetric] refl] show ?thesis
        by (simp add: dimLoop.simps [of E a i] Let_def)
    qed
  qed
qed

lemma attrLoop_Fault: "attrLoop E d0 sds attrs k s \<noteq> (Fault, s')"
proof (induction attrs arbitrary: k s)
  case Nil
  then show ?case by (simp add: attrLoop.simps)
next
  case (Cons a rest)
  show ?case
    using Cons.IH
    by (auto simp: attrLoop.simps Let_def andThen_Fault orERR_Fault
          split: option.splits if_splits)
qed

lemma openFile_returns:
  assumes "openFile E V fileName openMode a s = (r, s')"
  shows "r = Return asynSuccess \<or> r = Return asynError"
proof (cases r)
  case (Next u)
  with assms show ?thesis
    by (auto simp: openFile_def andThen_Next Let_def split: if_splits)
next
  case (Return x)
  then show ?thesis by (cases x) simp_all
next
  case Fault
  with assms show ?thesis
    by (auto simp: openFile_def andThen_Fault orERR_Fault assign_def Let_def
          dimLoop_Fault attrLoop_Fault split: if_splits)
qed

text \<open>
  C5. The switches of \<^verbatim>\<open>openFile\<close> are the table of the specification: \<open>array_ncType\<close> and
  \<open>attr_ncType\<close> return exactly the storage type the table lists, and \<open>attr_ncType\<close> has none
  only for the undefined type. An \<^verbatim>\<open>openFile\<close> that returns \<^verbatim>\<open>asynSuccess\<close> has defined
  \<^verbatim>\<open>array_data\<close> with the storage type of the frame's element type and, after it, one variable
  per attribute, in order, each with the storage type of that attribute's own type. With an
  attribute of undefined type on the frame, \<^verbatim>\<open>openFile\<close> returns \<^verbatim>\<open>asynError\<close> whatever the
  library answers.
\<close>

theorem storage_types:
  "(array_ncType t = nc \<longleftrightarrow> (t, nc) \<in> set array_storage_table) \<and>
   (attr_ncType ta = Some nca \<longleftrightarrow> (ta, nca) \<in> set attr_storage_table) \<and>
   (attr_ncType ta = None \<longleftrightarrow> ta = NDAttrUndefined) \<and>
   (openFile E V fileName openMode pArray s = (Return asynSuccess, s1) \<longrightarrow>
      map (\<lambda>v. (fst v, fst (snd v))) (take 3 (var_defs (new_events s s1)))
        = [(''uniqueId'', NC_INT), (''timeStamp'', NC_DOUBLE),
           (''array_data'', array_ncType (dataType pArray))] \<and>
      map (\<lambda>v. (fst v, Some (fst (snd v)))) (drop 3 (var_defs (new_events s s1)))
        = map (\<lambda>x. (getName x MAX_ATTRIBUTE_STRING_SIZE, attr_ncType (attrDataType x)))
            (pAttributeList pArray)) \<and>
   ((\<exists>x \<in> set (pAttributeList pArray). attrDataType x = NDAttrUndefined) \<longrightarrow>
      openFile E V fileName openMode pArray s = (r, s2) \<longrightarrow> r = Return asynError)"
proof (intro conjI impI)
  show "array_ncType t = nc \<longleftrightarrow> (t, nc) \<in> set array_storage_table"
    by (cases t) (auto simp: array_storage_table_def)
  show "attr_ncType ta = Some nca \<longleftrightarrow> (ta, nca) \<in> set attr_storage_table"
    by (cases ta) (auto simp: attr_storage_table_def)
  show "attr_ncType ta = None \<longleftrightarrow> ta = NDAttrUndefined"
    by (cases ta) simp_all
next
  assume run: "openFile E V fileName openMode pArray s = (Return asynSuccess, s1)"
  from openFile_new_events [OF run] obtain H where
    H: "length (h_dims H) = ndims pArray" "length (h_attrs H) = numAttributes pArray"
    and undef: "\<forall>x \<in> set (pAttributeList pArray). attrDataType x \<noteq> NDAttrUndefined"
    and ev: "new_events s s1 = open_events V fileName openMode pArray H"
    by blast
  show "map (\<lambda>v. (fst v, fst (snd v))) (take 3 (var_defs (new_events s s1)))
        = [(''uniqueId'', NC_INT), (''timeStamp'', NC_DOUBLE),
           (''array_data'', array_ncType (dataType pArray))]"
    by (simp add: ev open_var_defs [OF H])
  have some: "\<And>x. x \<in> set (pAttributeList pArray) \<Longrightarrow>
      Some (the (attr_ncType (attrDataType x))) = attr_ncType (attrDataType x)"
  proof -
    fix x assume "x \<in> set (pAttributeList pArray)"
    with undef have "attrDataType x \<noteq> NDAttrUndefined" by blast
    then show "Some (the (attr_ncType (attrDataType x))) = attr_ncType (attrDataType x)"
      by (cases "attrDataType x") simp_all
  qed
  from H have len: "length (h_attrs H) = length (pAttributeList pArray)"
    by (simp add: numAttributes_def)
  have "map (\<lambda>v. (fst v, Some (fst (snd v)))) (drop 3 (var_defs (new_events s s1)))
        = map (\<lambda>(x, h). (getName x MAX_ATTRIBUTE_STRING_SIZE,
                 Some (the (attr_ncType (attrDataType x)))))
            (zip (pAttributeList pArray) (h_attrs H))"
    by (simp add: ev open_var_defs [OF H] split_def o_def)
  also have "\<dots> = map (\<lambda>x. (getName x MAX_ATTRIBUTE_STRING_SIZE,
                 Some (the (attr_ncType (attrDataType x))))) (pAttributeList pArray)"
    by (rule map2_fst [OF len])
  also have "\<dots> = map (\<lambda>x. (getName x MAX_ATTRIBUTE_STRING_SIZE, attr_ncType (attrDataType x)))
            (pAttributeList pArray)"
    by (rule map_cong) (simp_all add: some)
  finally show "map (\<lambda>v. (fst v, Some (fst (snd v)))) (drop 3 (var_defs (new_events s s1)))
        = map (\<lambda>x. (getName x MAX_ATTRIBUTE_STRING_SIZE, attr_ncType (attrDataType x)))
            (pAttributeList pArray)" .
next
  assume u: "\<exists>x \<in> set (pAttributeList pArray). attrDataType x = NDAttrUndefined"
    and run: "openFile E V fileName openMode pArray s = (r, s2)"
  show "r = Return asynError"
  proof (rule ccontr)
    assume "r \<noteq> Return asynError"
    with openFile_returns [OF run] have "r = Return asynSuccess" by simp
    with run openFile_new_events [of E V fileName openMode pArray s s2] u show False
      by auto
  qed
qed

theorem storage_types_witness:
  "(NDUInt16, NC_SHORT) \<in> set array_storage_table \<and> array_ncType NDUInt16 = NC_SHORT \<and>
   (NDAttrString, NC_CHAR) \<in> set attr_storage_table \<and> attr_ncType NDAttrString = Some NC_CHAR \<and>
   attr_ncType NDAttrUndefined = None \<and>
   openFile E_ok 3 ''f.nc'' {NDFileModeWrite} frame234 s_new = (Return asynSuccess, s_open) \<and>
   map (\<lambda>v. (fst v, fst (snd v))) (var_defs (new_events s_new s_open))
     = [(''uniqueId'', NC_INT), (''timeStamp'', NC_DOUBLE), (''array_data'', NC_SHORT),
        (''Temp'', NC_DOUBLE), (''Cam'', NC_CHAR)] \<and>
   map attrDataType (pAttributeList frame_undef) = [NDAttrFloat64, NDAttrUndefined] \<and>
   fst (openFile E_ok 3 ''f.nc'' {NDFileModeWrite} frame_undef s_new) = Return asynError"
proof -
  have h1: "openFile E_ok 3 ''f.nc'' {NDFileModeWrite} frame234 s_new = (Return asynSuccess, s_open)"
    by (simp add: run_defs ex_defs)
  have h2: "\<exists>x \<in> set (pAttributeList frame_undef). attrDataType x = NDAttrUndefined"
    by (simp add: ex_defs)
  have h3: "openFile E_ok 3 ''f.nc'' {NDFileModeWrite} frame_undef s_new
     = (fst (openFile E_ok 3 ''f.nc'' {NDFileModeWrite} frame_undef s_new),
        snd (openFile E_ok 3 ''f.nc'' {NDFileModeWrite} frame_undef s_new))"
    by simp
  have c: "map (\<lambda>v. (fst v, fst (snd v))) (var_defs (new_events s_new s_open))
     = [(''uniqueId'', NC_INT), (''timeStamp'', NC_DOUBLE), (''array_data'', NC_SHORT),
        (''Temp'', NC_DOUBLE), (''Cam'', NC_CHAR)]"
    "map attrDataType (pAttributeList frame_undef) = [NDAttrFloat64, NDAttrUndefined]"
    by (simp_all add: run_defs ex_defs)
  from storage_types [of NDUInt16 NC_SHORT NDAttrString NC_CHAR E_ok 3 "''f.nc''" "{NDFileModeWrite}"
      frame234 s_new s_open]
    storage_types [of _ _ NDAttrUndefined _ E_ok 3 "''f.nc''" "{NDFileModeWrite}" frame_undef s_new _
      "fst (openFile E_ok 3 ''f.nc'' {NDFileModeWrite} frame_undef s_new)"
      "snd (openFile E_ok 3 ''f.nc'' {NDFileModeWrite} frame_undef s_new)"]
    h1 h2 h3 c
  show ?thesis
    by (simp add: array_storage_table_def attr_storage_table_def)
qed

lemma differs_from_rev:
  "xs \<noteq> rev xs \<longleftrightarrow> (\<exists>i < length xs. xs ! i \<noteq> xs ! (length xs - 1 - i))"
proof -
  have "xs = rev xs \<longleftrightarrow> (\<forall>i < length xs. xs ! i = rev xs ! i)"
    by (simp add: list_eq_iff_nth_eq)
  also have "\<dots> \<longleftrightarrow> (\<forall>i < length xs. xs ! i = xs ! (length xs - 1 - i))"
    by (simp add: rev_nth)
  finally show ?thesis by blast
qed

lemma sizes_differ:
  "map size_dim (dims pArray) \<noteq> rev (map size_dim (dims pArray)) \<longleftrightarrow>
      (\<exists>i < ndims pArray. size_dim (dims pArray ! i) \<noteq> size_dim (dims pArray ! (ndims pArray - 1 - i)))"
  by (simp add: differs_from_rev [of "map size_dim (dims pArray)"] ndims_def cong: conj_cong)

lemma ends_differ:
  "1 < ndims pArray \<and> size_dim (hd (dims pArray)) \<noteq> size_dim (last (dims pArray)) \<longrightarrow>
      map size_dim (dims pArray) \<noteq> rev (map size_dim (dims pArray))"
proof
  assume a: "1 < ndims pArray \<and> size_dim (hd (dims pArray)) \<noteq> size_dim (last (dims pArray))"
  then have ne: "dims pArray \<noteq> []" by (auto simp: ndims_def)
  then have "hd (map size_dim (dims pArray)) = size_dim (hd (dims pArray))"
    "hd (rev (map size_dim (dims pArray))) = size_dim (last (dims pArray))"
    by (simp_all add: hd_map hd_rev last_map)
  with a show "map size_dim (dims pArray) \<noteq> rev (map size_dim (dims pArray))" by auto
qed

text \<open>
  C10, as the code has it. An \<^verbatim>\<open>openFile\<close> that returns \<^verbatim>\<open>asynSuccess\<close> has written the global
  attributes \<^verbatim>\<open>dimSize\<close>, \<^verbatim>\<open>dimOffset\<close>, \<^verbatim>\<open>dimBinning\<close> and \<^verbatim>\<open>dimReverse\<close> in the frame's own order
  (entry \<open>i\<close> comes from \<^verbatim>\<open>dims[i]\<close>), while the data axes it defined have the sizes in
  reversed order. The order of \<^verbatim>\<open>dimSize\<close> differs from the order of the data axes exactly
  when some size differs from the one at the mirrored position, hence for every frame whose
  first and last dimensions differ in size (every frame of two dimensions of different
  sizes among them); it does not differ when the sizes read the same in both directions.
\<close>

theorem dimension_metadata_order:
  "openFile E V fileName openMode pArray s = (Return asynSuccess, s1) \<Longrightarrow>
   map_of (global_ints (new_events s s1)) ''dimSize''
     = Some (att_ints (map size_dim (dims pArray))) \<and>
   map_of (global_ints (new_events s s1)) ''dimOffset''
     = Some (att_ints (map offset (dims pArray))) \<and>
   map_of (global_ints (new_events s s1)) ''dimBinning''
     = Some (att_ints (map binning (dims pArray))) \<and>
   map_of (global_ints (new_events s s1)) ''dimReverse''
     = Some (att_ints (map reverse (dims pArray))) \<and>
   map (\<lambda>d. fst (snd d)) (take (ndims pArray) (drop 1 (dim_defs (new_events s s1))))
     = rev (map size_dim (dims pArray)) \<and>
   (map_of (global_ints (new_events s s1)) ''dimSize''
      \<noteq> Some (att_ints (map (\<lambda>d. fst (snd d))
                (take (ndims pArray) (drop 1 (dim_defs (new_events s s1))))))
    \<longleftrightarrow> (\<exists>i < ndims pArray.
           size_dim (dims pArray ! i) \<noteq> size_dim (dims pArray ! (ndims pArray - 1 - i)))) \<and>
   (1 < ndims pArray \<and> size_dim (hd (dims pArray)) \<noteq> size_dim (last (dims pArray)) \<longrightarrow>
      map_of (global_ints (new_events s s1)) ''dimSize''
        \<noteq> Some (att_ints (map (\<lambda>d. fst (snd d))
                  (take (ndims pArray) (drop 1 (dim_defs (new_events s s1)))))))"
proof -
  assume run: "openFile E V fileName openMode pArray s = (Return asynSuccess, s1)"
  from openFile_new_events [OF run] obtain H where
    H: "length (h_dims H) = ndims pArray" "length (h_attrs H) = numAttributes pArray"
    and ev: "new_events s s1 = open_events V fileName openMode pArray H"
    by blast
  let ?G = "global_ints (new_events s s1)"
  let ?axes = "map (\<lambda>d. fst (snd d)) (take (ndims pArray) (drop 1 (dim_defs (new_events s s1))))"
  let ?sizes = "map size_dim (dims pArray)"
  have g: "map_of ?G ''dimSize'' = Some (att_ints ?sizes)"
    "map_of ?G ''dimOffset'' = Some (att_ints (map offset (dims pArray)))"
    "map_of ?G ''dimBinning'' = Some (att_ints (map binning (dims pArray)))"
    "map_of ?G ''dimReverse'' = Some (att_ints (map reverse (dims pArray)))"
    unfolding ev open_global_ints [OF H] map_of_append map_add_def
    by simp_all
  have "?axes = take (ndims pArray) (drop 1 (map (\<lambda>d. fst (snd d)) (dim_defs (new_events s s1))))"
    by (simp add: take_map drop_map)
  then have axes: "?axes = rev ?sizes"
    by (simp add: ev open_dim_defs [OF H] ndims_def)
  have iff: "?sizes \<noteq> rev ?sizes \<longleftrightarrow>
      (\<exists>i < ndims pArray. size_dim (dims pArray ! i) \<noteq> size_dim (dims pArray ! (ndims pArray - 1 - i)))"
    by (rule sizes_differ)
  have ends: "1 < ndims pArray \<and> size_dim (hd (dims pArray)) \<noteq> size_dim (last (dims pArray)) \<longrightarrow>
      ?sizes \<noteq> rev ?sizes"
    by (rule ends_differ)
  have eq: "(map_of ?G ''dimSize'' \<noteq> Some (att_ints ?axes)) \<longleftrightarrow> ?sizes \<noteq> rev ?sizes"
    by (simp only: g axes option.inject att_values.inject)
  show ?thesis
    apply (intro conjI)
          apply (rule g(1))
         apply (rule g(2))
        apply (rule g(3))
       apply (rule g(4))
      apply (rule axes)
     apply (simp only: eq iff)
    apply (simp only: eq)
    apply (rule ends)
    done
qed

theorem dimension_metadata_order_witness:
  "openFile E_ok 3 ''f.nc'' {NDFileModeWrite} frame234 s_new = (Return asynSuccess, s_open) \<and>
   map_of (global_ints (new_events s_new s_open)) ''dimSize'' = Some (att_ints [2, 3, 4]) \<and>
   map_of (global_ints (new_events s_new s_open)) ''dimBinning'' = Some (att_ints [1, 1, 1]) \<and>
   map (\<lambda>d. fst (snd d)) (take (ndims frame234) (drop 1 (dim_defs (new_events s_new s_open))))
     = [4, 3, 2] \<and>
   1 < ndims frame234 \<and> size_dim (hd (dims frame234)) \<noteq> size_dim (last (dims frame234))"
proof -
  have h1: "openFile E_ok 3 ''f.nc'' {NDFileModeWrite} frame234 s_new = (Return asynSuccess, s_open)"
    by (simp add: run_defs ex_defs)
  have c: "map size_dim (dims frame234) = [2, 3, 4]" "map binning (dims frame234) = [1, 1, 1]"
    "1 < ndims frame234" "size_dim (hd (dims frame234)) \<noteq> size_dim (last (dims frame234))"
    by (simp_all add: ex_defs ndims_def)
  from dimension_metadata_order [OF h1] h1 c
  show ?thesis
    by simp
qed

theorem dimension_metadata_order_counterexample:
  "openFile E_ok 3 ''f.nc'' {NDFileModeWrite} frame232 s_new
     = (Return asynSuccess, snd (openFile E_ok 3 ''f.nc'' {NDFileModeWrite} frame232 s_new)) \<and>
   1 < ndims frame232 \<and>
   size_dim (dims frame232 ! 0) \<noteq> size_dim (dims frame232 ! 1) \<and>
   map_of (global_ints (new_events s_new
             (snd (openFile E_ok 3 ''f.nc'' {NDFileModeWrite} frame232 s_new)))) ''dimSize''
     = Some (att_ints [2, 3, 2]) \<and>
   map (\<lambda>d. fst (snd d)) (take (ndims frame232) (drop 1 (dim_defs (new_events s_new
             (snd (openFile E_ok 3 ''f.nc'' {NDFileModeWrite} frame232 s_new))))))
     = [2, 3, 2]"
  by (simp add: run_defs ex_defs)

text \<open>
  C9, as the code has it. \<^verbatim>\<open>closeFile\<close> makes the one call \<^verbatim>\<open>nc_close\<close> and returns
  \<^verbatim>\<open>asynSuccess\<close> or \<^verbatim>\<open>asynError\<close> by its status; it changes nothing else in the session, so
  the list \<open>pAttributeId\<close> is after it what it was before: \<^verbatim>\<open>closeFile\<close> releases nothing.
  After an \<^verbatim>\<open>openFile\<close> that returns \<^verbatim>\<open>asynSuccess\<close>, on a closed session or any other,
  \<open>pAttributeId\<close> holds the identifiers of the variables this \<^verbatim>\<open>openFile\<close> defined for the
  attributes of its frame, whatever it held before.
\<close>

theorem closeFile_keeps_attribute_ids:
  "(closeFile E s = (r, s') \<longrightarrow>
      pAttributeId s' = pAttributeId s \<and>
      s' = s\<lparr>netcdf := netcdf s @ [\<lparr>request = Nc_close (ncId s),
                                    status = fst (E (length (netcdf s))),
                                    handle = snd (E (length (netcdf s)))\<rparr>]\<rparr> \<and>
      r = (if fst (E (length (netcdf s))) = 0 then Return asynSuccess else Return asynError)) \<and>
   (openFile E V fileName openMode pArray s = (Return asynSuccess, s1) \<longrightarrow>
      pAttributeId s1 = Some (map (\<lambda>v. snd (snd (snd v))) (drop 3 (var_defs (new_events s s1)))) \<and>
      length (attributeIds s1) = numAttributes pArray)"
proof (intro conjI impI)
  assume c: "closeFile E s = (r, s')"
  obtain rv h where e: "E (length (netcdf s)) = (rv, h)"
    by (cases "E (length (netcdf s))")
  from c e have s': "s' = s\<lparr>netcdf := netcdf s @ [\<lparr>request = Nc_close (ncId s),
                                    status = rv, handle = h\<rparr>]\<rparr>"
    and r: "r = (if rv = 0 then Return asynSuccess else Return asynError)"
    by (auto simp: closeFile_def andThen_def orERR_def ERR_def nc_call_def Let_def
          split: if_splits)
  from s' show "pAttributeId s' = pAttributeId s" by simp
  from s' e show "s' = s\<lparr>netcdf := netcdf s @ [\<lparr>request = Nc_close (ncId s),
                                    status = fst (E (length (netcdf s))),
                                    handle = snd (E (length (netcdf s)))\<rparr>]\<rparr>"
    by simp
  from r e show "r = (if fst (E (length (netcdf s))) = 0 then Return asynSuccess
                      else Return asynError)"
    by simp
next
  assume run: "openFile E V fileName openMode pArray s = (Return asynSuccess, s1)"
  from openFile_new_events [OF run] obtain H where
    H: "length (h_dims H) = ndims pArray" "length (h_attrs H) = numAttributes pArray"
    and p: "pAttributeId s1 = Some (map (\<lambda>h. snd (snd h)) (h_attrs H))"
    and ev: "new_events s s1 = open_events V fileName openMode pArray H"
    by blast
  from H have len: "length (h_attrs H) = length (pAttributeList pArray)"
    by (simp add: numAttributes_def)
  have "map (\<lambda>v. snd (snd (snd v))) (drop 3 (var_defs (new_events s s1)))
          = map (\<lambda>(x, h). snd (snd h)) (zip (pAttributeList pArray) (h_attrs H))"
    by (simp add: ev open_var_defs [OF H] split_def o_def)
  also have "\<dots> = map (\<lambda>h. snd (snd h)) (h_attrs H)"
    by (rule map2_snd [OF len])
  finally show "pAttributeId s1
      = Some (map (\<lambda>v. snd (snd (snd v))) (drop 3 (var_defs (new_events s s1))))"
    using p by simp
  from p H show "length (attributeIds s1) = numAttributes pArray"
    by (simp add: attributeIds_def)
qed

theorem closeFile_keeps_attribute_ids_witness:
  "closeFile E_ok s_open = (Return asynSuccess, snd (closeFile E_ok s_open)) \<and>
   pAttributeId (snd (closeFile E_ok s_open)) = Some [118, 121] \<and>
   openFile E_ok 3 ''f.nc'' {NDFileModeWrite} frame234 s_new = (Return asynSuccess, s_open) \<and>
   pAttributeId s_new = None \<and> pAttributeId s_open = Some [118, 121] \<and>
   map (\<lambda>v. snd (snd (snd v))) (drop 3 (var_defs (new_events s_new s_open))) = [118, 121] \<and>
   openFile E_ok 3 ''g.nc'' {NDFileModeWrite} frame234 (snd (closeFile E_ok s_open))
     = (Return asynSuccess,
        snd (openFile E_ok 3 ''g.nc'' {NDFileModeWrite} frame234 (snd (closeFile E_ok s_open)))) \<and>
   pAttributeId (snd (openFile E_ok 3 ''g.nc'' {NDFileModeWrite} frame234
                        (snd (closeFile E_ok s_open))))
     = Some [142, 145]"
proof -
  have h1: "openFile E_ok 3 ''f.nc'' {NDFileModeWrite} frame234 s_new = (Return asynSuccess, s_open)"
    by (simp add: run_defs ex_defs)
  have h2: "closeFile E_ok s_open = (Return asynSuccess, snd (closeFile E_ok s_open))"
    by (simp add: run_defs ex_defs)
  have h3: "openFile E_ok 3 ''g.nc'' {NDFileModeWrite} frame234 (snd (closeFile E_ok s_open))
     = (Return asynSuccess,
        snd (openFile E_ok 3 ''g.nc'' {NDFileModeWrite} frame234 (snd (closeFile E_ok s_open))))"
    by (simp add: run_defs ex_defs)
  have c: "pAttributeId s_open = Some [118, 121]" "pAttributeId s_new = None"
    "map (\<lambda>v. snd (snd (snd v))) (drop 3 (var_defs (new_events s_new s_open))) = [118, 121]"
    by (simp_all add: run_defs ex_defs)
  have c2: "map (\<lambda>v. snd (snd (snd v))) (drop 3 (var_defs (new_events (snd (closeFile E_ok s_open))
       (snd (openFile E_ok 3 ''g.nc'' {NDFileModeWrite} frame234 (snd (closeFile E_ok s_open)))))))
     = [142, 145]"
    by (simp add: run_defs ex_defs)
  from closeFile_keeps_attribute_ids [of E_ok "snd (closeFile E_ok s_open)" _ _ 3 "''g.nc''"
      "{NDFileModeWrite}" frame234
      "snd (openFile E_ok 3 ''g.nc'' {NDFileModeWrite} frame234 (snd (closeFile E_ok s_open)))"]
    h3 c2
  have t: "pAttributeId (snd (openFile E_ok 3 ''g.nc'' {NDFileModeWrite} frame234
                        (snd (closeFile E_ok s_open))))
     = Some [142, 145]"
    by simp
  from closeFile_keeps_attribute_ids [of E_ok s_open "Return asynSuccess"
      "snd (closeFile E_ok s_open)" 3 "''f.nc''" "{NDFileModeWrite}" frame234 s_open]
    closeFile_keeps_attribute_ids [of E_ok s_new _ _ 3 "''f.nc''" "{NDFileModeWrite}" frame234 s_open]
    h1 h2 c
  have "closeFile E_ok s_open = (Return asynSuccess, snd (closeFile E_ok s_open)) \<and>
   pAttributeId (snd (closeFile E_ok s_open)) = Some [118, 121] \<and>
   openFile E_ok 3 ''f.nc'' {NDFileModeWrite} frame234 s_new = (Return asynSuccess, s_open) \<and>
   pAttributeId s_new = None \<and> pAttributeId s_open = Some [118, 121] \<and>
   map (\<lambda>v. snd (snd (snd v))) (drop 3 (var_defs (new_events s_new s_open))) = [118, 121]"
    by simp
  with h3 t show ?thesis
    by (simp only: simp_thms)
qed

theorem closeFile_releases_counterexample:
  "closeFile E_ok s_open = (Return asynSuccess, snd (closeFile E_ok s_open)) \<and>
   pAttributeId s_open = Some [118, 121] \<and>
   pAttributeId (snd (closeFile E_ok s_open)) = Some [118, 121] \<and>
   pAttributeId (snd (closeFile E_ok s_open)) \<noteq> None \<and>
   attributeIds (snd (closeFile E_ok s_open)) \<noteq> []"
  by (simp add: run_defs ex_defs)

subsection \<open>Attribute by attribute\<close>

lemma attributeCall_None:
  "attributeCall ncid ident st ct a = None \<longleftrightarrow> attrDataType a = NDAttrUndefined"
  by (cases "attrDataType a") (simp_all add: attributeCall_def getValueInfo_def Let_def)

lemma attr_requests_nth:
  "k < length (attr_requests ncid st ct attrs ids) \<Longrightarrow>
   k < length attrs \<and> k < length ids \<and>
   attributeCall ncid (ids ! k) st ct (attrs ! k) = Some (attr_requests ncid st ct attrs ids ! k)"
proof (induction ncid st ct attrs ids arbitrary: k rule: attr_requests.induct)
  case (3 ncid st ct a rest ident ids)
  show ?case
  proof (cases "attributeCall ncid ident st ct a")
    case None
    with "3.prems" show ?thesis by simp
  next
    case (Some rq)
    show ?thesis
    proof (cases k)
      case 0
      with Some show ?thesis by simp
    next
      case (Suc k')
      with "3.prems" Some have "k' < length (attr_requests ncid st ct rest ids)" by simp
      from "3.IH" [OF Some this] Some Suc show ?thesis by simp
    qed
  qed
qed simp_all

lemma attr_requests_undef:
  "j < length attrs \<Longrightarrow> attrDataType (attrs ! j) = NDAttrUndefined \<Longrightarrow>
   length (attr_requests ncid st ct attrs ids) \<le> j"
proof (induction ncid st ct attrs ids arbitrary: j rule: attr_requests.induct)
  case (3 ncid st ct a rest ident ids)
  show ?case
  proof (cases "attributeCall ncid ident st ct a")
    case None
    then show ?thesis by simp
  next
    case (Some rq)
    show ?thesis
    proof (cases j)
      case 0
      with "3.prems" have "attributeCall ncid ident st ct a = None"
        by (simp add: attributeCall_None)
      with Some show ?thesis by simp
    next
      case (Suc j')
      with "3.prems" have "j' < length rest" "attrDataType (rest ! j') = NDAttrUndefined"
        by simp_all
      from "3.IH" [OF Some this] Some Suc show ?thesis by simp
    qed
  qed
qed simp_all



lemma writeFile_attribute_event:
  assumes run: "writeFile E a s = (r, s')"
    and k: "3 + k < length (new_events s s')"
  shows "k < length (pAttributeList a)" "k < length (attributeIds s)"
    "attributeCall (ncId s) (attributeIds s ! k) (to_size_t (nextRecord s) # replicate (ndims a) 0)
       (1 # rev (map size_dim (dims a))) (pAttributeList a ! k)
     = Some (request (new_events s s' ! (3 + k)))"
proof -
  let ?st = "to_size_t (nextRecord s) # replicate (ndims a) 0"
  let ?ct = "1 # rev (map size_dim (dims a))"
  let ?plan = "attr_requests (ncId s) ?st ?ct (pAttributeList a) (attributeIds s)"
  from writeFile_run [OF run] obtain evs where
    ev: "new_events s s' = evs"
    and len: "length evs \<le> length (write_requests s a)"
    and pre: "map request evs = take (length evs) (write_requests s a)"
    by (auto simp: new_events_def)
  have wr: "write_requests s a ! (3 + k) = ?plan ! k" "length (write_requests s a) = 3 + length ?plan"
    by (simp_all add: write_requests_def Let_def)
  from k ev len wr have kp: "k < length ?plan" by simp
  from k ev have "request (evs ! (3 + k)) = map request evs ! (3 + k)" by simp
  also from k ev have "\<dots> = write_requests s a ! (3 + k)" by (simp add: pre)
  finally have rq: "request (new_events s s' ! (3 + k)) = ?plan ! k"
    by (simp add: ev wr)
  from attr_requests_nth [OF kp] rq
  show "k < length (pAttributeList a)" "k < length (attributeIds s)"
    "attributeCall (ncId s) (attributeIds s ! k) ?st ?ct (pAttributeList a ! k)
     = Some (request (new_events s s' ! (3 + k)))"
    by simp_all
qed






text \<open>
  C8. Let the attribute at position \<open>j\<close> of the frame have undefined type. Then \<^verbatim>\<open>writeFile\<close>
  does not return \<^verbatim>\<open>asynSuccess\<close>, whatever the library answers, and the cursor stays where
  it was. Its calls are the first calls of the list \<open>write_requests\<close>, at most \<open>3 + j\<close> of
  them: each call after the first three writes an attribute before position \<open>j\<close>, and
  nothing is written for the attribute at \<open>j\<close> or for any attribute after it. It returns
  \<^verbatim>\<open>asynError\<close> whenever the block \<open>pAttributeId\<close> has an entry for position \<open>j\<close>; line 307
  reads that entry before the switch looks at the type, and the only other outcome is that
  this read, or an earlier one, falls outside a block with no more than \<open>j\<close> entries.
\<close>

theorem undefined_attribute_aborts_write:
  assumes "writeFile E pArray s = (r, s')"
    and "j < length (pAttributeList pArray)"
    and "attrDataType (pAttributeList pArray ! j) = NDAttrUndefined"
  shows "r \<noteq> Return asynSuccess \<and>
         (j < length (attributeIds s) \<longrightarrow> r = Return asynError) \<and>
         (r = Return asynError \<or> r = Fault \<and> length (attributeIds s) \<le> j) \<and>
         nextRecord s' = nextRecord s \<and>
         length (new_events s s') \<le> 3 + j \<and>
         map request (new_events s s') = take (length (new_events s s')) (write_requests s pArray) \<and>
         (\<forall>n. 3 + n < length (new_events s s') \<longrightarrow>
            n < j \<and>
            attributeCall (ncId s) (attributeIds s ! n) (to_size_t (nextRecord s) # replicate (ndims pArray) 0)
                (1 # rev (map size_dim (dims pArray))) (pAttributeList pArray ! n)
              = Some (request (new_events s s' ! (3 + n))))"
proof -
  let ?st = "to_size_t (nextRecord s) # replicate (ndims pArray) 0"
  let ?ct = "1 # rev (map size_dim (dims pArray))"
  let ?plan = "attr_requests (ncId s) ?st ?ct (pAttributeList pArray) (attributeIds s)"
  from writeFile_run [OF assms(1)] obtain evs where
    s': "s' = s\<lparr>nextRecord := (if r = Return asynSuccess then nextRecord s + 1 else nextRecord s),
            netcdf := netcdf s @ evs\<rparr>"
    and len: "length evs \<le> length (write_requests s pArray)"
    and pre: "map request evs = take (length evs) (write_requests s pArray)"
    and out: "(case r of
        Next u \<Rightarrow> False
      | Return x \<Rightarrow>
          (x = asynSuccess \<longrightarrow>
             length evs = 3 + length (pAttributeList pArray) \<and> (\<forall>e \<in> set evs. status e = 0))
      | Fault \<Rightarrow>
          length evs = length (write_requests s pArray) \<and> length (attributeIds s) + 3 \<le> length evs)"
    by blast
  from s' have ev: "new_events s s' = evs"
    by (simp add: new_events_def)
  have "length (write_requests s pArray) = 3 + length ?plan"
    by (simp add: write_requests_def Let_def)
  with attr_requests_undef [OF assms(2,3), of "ncId s" ?st ?ct "attributeIds s"]
  have wl: "length (write_requests s pArray) \<le> 3 + j" by simp
  with len have el: "length evs \<le> 3 + j" by simp
  have r: "r = Return asynError \<or> r = Fault \<and> length (attributeIds s) \<le> j"
  proof (cases r)
    case (Next u)
    with out show ?thesis by simp
  next
    case (Return x)
    show ?thesis
    proof (cases x)
      case asynSuccess
      with Return out el assms(2) show ?thesis by simp
    next
      case asynError
      with Return show ?thesis by simp
    qed
  next
    case Fault
    with out el show ?thesis by simp
  qed
  then have r1: "r \<noteq> Return asynSuccess" "j < length (attributeIds s) \<longrightarrow> r = Return asynError"
    by auto
  have each: "\<forall>n. 3 + n < length (new_events s s') \<longrightarrow>
            n < j \<and>
            attributeCall (ncId s) (attributeIds s ! n) ?st ?ct (pAttributeList pArray ! n)
              = Some (request (new_events s s' ! (3 + n)))"
  proof (intro allI impI)
    fix n assume n: "3 + n < length (new_events s s')"
    with el ev have "n < j" by simp
    with writeFile_attribute_event(3) [OF assms(1) n]
    show "n < j \<and>
            attributeCall (ncId s) (attributeIds s ! n) ?st ?ct (pAttributeList pArray ! n)
              = Some (request (new_events s s' ! (3 + n)))"
      by simp
  qed
  from r1(1) s' have "nextRecord s' = nextRecord s" by simp
  with r r1 el pre each show ?thesis
    by (simp add: ev)
qed

theorem undefined_attribute_aborts_write_witness:
  "writeFile E_ok frame_undef s_open = (Return asynError, snd (writeFile E_ok frame_undef s_open)) \<and>
   (1::nat) < length (pAttributeList frame_undef) \<and>
   attrDataType (pAttributeList frame_undef ! 1) = NDAttrUndefined \<and>
   (1::nat) < length (attributeIds s_open) \<and>
   nextRecord (snd (writeFile E_ok frame_undef s_open)) = nextRecord s_open \<and>
   map request (new_events s_open (snd (writeFile E_ok frame_undef s_open)))
     = [Nc_put_vara vara_int 100 113 [0, 0, 0, 0] [1, 4, 3, 2] (data_int 2),
        Nc_put_vara vara_double 100 114 [0, 0, 0, 0] [1, 4, 3, 2] (data_double 10),
        Nc_put_vara vara_short 100 115 [0, 0, 0, 0] [1, 4, 3, 2] (data_buffer []),
        Nc_put_vara vara_double 100 118 [0, 0, 0, 0] [1, 4, 3, 2] (data_attr 5)]"
proof -
  have h1: "writeFile E_ok frame_undef s_open
              = (fst (writeFile E_ok frame_undef s_open), snd (writeFile E_ok frame_undef s_open))"
    by simp
  have h2: "(1::nat) < length (pAttributeList frame_undef)"
    "attrDataType (pAttributeList frame_undef ! 1) = NDAttrUndefined"
    "(1::nat) < length (attributeIds s_open)"
    by (simp_all add: run_defs ex_defs)
  have c: "map request (new_events s_open (snd (writeFile E_ok frame_undef s_open)))
     = [Nc_put_vara vara_int 100 113 [0, 0, 0, 0] [1, 4, 3, 2] (data_int 2),
        Nc_put_vara vara_double 100 114 [0, 0, 0, 0] [1, 4, 3, 2] (data_double 10),
        Nc_put_vara vara_short 100 115 [0, 0, 0, 0] [1, 4, 3, 2] (data_buffer []),
        Nc_put_vara vara_double 100 118 [0, 0, 0, 0] [1, 4, 3, 2] (data_attr 5)]"
    by (simp add: run_defs ex_defs)
  from undefined_attribute_aborts_write [OF h1 h2(1,2)] h2(3)
  have t: "fst (writeFile E_ok frame_undef s_open) = Return asynError"
    "nextRecord (snd (writeFile E_ok frame_undef s_open)) = nextRecord s_open"
    by simp_all
  from t(1) have "writeFile E_ok frame_undef s_open
      = (Return asynError, snd (writeFile E_ok frame_undef s_open))"
    by (simp add: prod_eq_iff)
  with t h2 c show ?thesis
    by (simp only: simp_thms)
qed

end
